theory Spec2Isabelle
  imports Main "HOL-Library.AList"
begin

section \<open>Purpose of a Crafting player (crafting/purpose.py)\<close>

text \<open>
  Python dictionaries keep their keys in insertion order; they are association lists
  here, read with \<^const>\<open>map_of\<close> and written with \<^const>\<open>AList.update\<close> (an
  existing key keeps its place, a new key goes last). A lookup of a missing key raises
  \<open>KeyError\<close> in the source and is a branch of the model.
\<close>

datatype error = KeyError | ValueError | NotImplementedError | NetworkXError

subsection \<open>RewardShaping\<close>

datatype RewardShaping = NONE | ALL_ACHIVEMENTS | REQUIRED_ACHIVEMENTS | INPUTS_ACHIVEMENT

text \<open>
  \<open>add_task\<close> receives either a member of the enumeration or one of its string values
  and converts it with \<open>RewardShaping(reward_shaping)\<close>, which raises \<open>ValueError\<close> on
  any other string.
\<close>

datatype shaping_arg = ShapingMember RewardShaping | ShapingValue string

fun RewardShaping_of :: "shaping_arg \<Rightarrow> error + RewardShaping" where
  "RewardShaping_of (ShapingMember m) = Inr m"
| "RewardShaping_of (ShapingValue s) =
     (if s = ''none'' then Inr NONE
      else if s = ''all'' then Inr ALL_ACHIVEMENTS
      else if s = ''required'' then Inr REQUIRED_ACHIVEMENTS
      else if s = ''inputs'' then Inr INPUTS_ACHIVEMENT
      else Inl ValueError)"

subsection \<open>The Purpose object\<close>

text \<open>
  The type \<open>'t\<close> is the type of task objects. The dictionaries of the source are keyed
  by the task objects themselves; the class \<open>Task\<close> (crafting/task.py) is not among the
  sources, so what \<open>task.is_terminal\<close> and \<open>task.reward\<close> return on a state is a
  parameter of the functions below.
\<close>

record ('t, 'r) Purpose =
  tasks :: "'t list"
  timestep_reward :: 'r
  shaping_value :: 'r
  default_reward_shaping :: shaping_arg
  task_has_ended :: "('t \<times> bool) list"
  reward_shaping :: "('t \<times> RewardShaping) list"
  terminal_groups :: "(string \<times> 't list) list"

text \<open>The argument \<open>terminal_groups\<close> of \<open>add_task\<close>: \<open>None\<close>, a string or a list of strings.\<close>

datatype groups_arg = GroupsNone | GroupsStr string | GroupsList "string list"

text \<open>
  \<open>if terminal_groups:\<close> is false for \<open>None\<close>, the empty string and the empty list; a
  string stands for the list holding it.
\<close>

fun groups_of_arg :: "groups_arg \<Rightarrow> string list" where
  "groups_of_arg GroupsNone = []"
| "groups_of_arg (GroupsStr s) = (if s = [] then [] else [s])"
| "groups_of_arg (GroupsList gs) = gs"

text \<open>One turn of the loop over the terminal groups of \<open>add_task\<close>.\<close>

definition add_to_group :: "'t \<Rightarrow> string \<Rightarrow> (string \<times> 't list) list \<Rightarrow> (string \<times> 't list) list" where
  "add_to_group task terminal_group groups =
     (case map_of groups terminal_group of
        None \<Rightarrow> AList.update terminal_group [task] groups
      | Some group_tasks \<Rightarrow> AList.update terminal_group (group_tasks @ [task]) groups)"

definition add_task_with ::
  "('t, 'r) Purpose \<Rightarrow> 't \<Rightarrow> RewardShaping \<Rightarrow> groups_arg \<Rightarrow> ('t, 'r) Purpose" where
  "add_task_with p task shaping groups =
     p\<lparr> task_has_ended := AList.update task False (task_has_ended p),
        terminal_groups := fold (add_to_group task) (groups_of_arg groups) (terminal_groups p),
        reward_shaping := AList.update task shaping (reward_shaping p),
        tasks := tasks p @ [task] \<rparr>"

definition add_task ::
  "('t, 'r) Purpose \<Rightarrow> 't \<Rightarrow> shaping_arg option \<Rightarrow> groups_arg \<Rightarrow> error + ('t, 'r) Purpose" where
  "add_task p task shaping groups =
     (case RewardShaping_of (case shaping of None \<Rightarrow> default_reward_shaping p | Some s \<Rightarrow> s) of
        Inl e \<Rightarrow> Inl e
      | Inr m \<Rightarrow> Inr (add_task_with p task m groups))"

text \<open>The constructor: \<open>tasks\<close> is \<open>None\<close>, one task or a list of tasks.\<close>

datatype 't tasks_arg = TasksNone | TasksOne 't | TasksList "'t list"

fun tasks_of_arg :: "'t tasks_arg \<Rightarrow> 't list" where
  "tasks_of_arg TasksNone = []"
| "tasks_of_arg (TasksOne t) = [t]"
| "tasks_of_arg (TasksList ts) = ts"

fun add_tasks :: "('t, 'r) Purpose \<Rightarrow> 't list \<Rightarrow> error + ('t, 'r) Purpose" where
  "add_tasks p [] = Inr p"
| "add_tasks p (t # ts) =
     (case add_task p t (Some (default_reward_shaping p)) (GroupsStr ''default'') of
        Inl e \<Rightarrow> Inl e
      | Inr p' \<Rightarrow> add_tasks p' ts)"

definition empty_Purpose :: "'r \<Rightarrow> shaping_arg \<Rightarrow> 'r \<Rightarrow> ('t, 'r) Purpose" where
  "empty_Purpose timestep default_shaping shaping =
     \<lparr> tasks = [], timestep_reward = timestep, shaping_value = shaping,
       default_reward_shaping = default_shaping, task_has_ended = [],
       reward_shaping = [], terminal_groups = [] \<rparr>"

definition Purpose_init ::
  "'t tasks_arg \<Rightarrow> 'r \<Rightarrow> shaping_arg \<Rightarrow> 'r \<Rightarrow> error + ('t, 'r) Purpose" where
  "Purpose_init tasks_arg timestep default_shaping shaping =
     add_tasks (empty_Purpose timestep default_shaping shaping) (tasks_of_arg tasks_arg)"

subsection \<open>reward\<close>

text \<open>
  \<open>task_reward t player_inventory position zones_inventory\<close> is what
  \<open>task.reward(player_inventory, position, zones_inventory)\<close> returns. The rewards are
  added from left to right, starting from the timestep reward.
\<close>

definition reward ::
  "('t \<Rightarrow> 'a \<Rightarrow> 'b \<Rightarrow> 'c \<Rightarrow> 'r::plus) \<Rightarrow> ('t, 'r) Purpose \<Rightarrow> 'a \<Rightarrow> 'b \<Rightarrow> 'c \<Rightarrow> 'r" where
  "reward task_reward p player_inventory position zones_inventory =
     (if tasks p = [] then timestep_reward p
      else foldl (\<lambda>r task. r + task_reward task player_inventory position zones_inventory)
             (timestep_reward p) (tasks p))"

subsection \<open>is_terminal\<close>

text \<open>
  The first loop of \<open>is_terminal\<close>: a task whose flag is not set and whose own
  \<open>is_terminal\<close> holds on the state gets its flag set. \<open>ev t\<close> is what
  \<open>t.is_terminal(player_inventory, position, zones_inventory)\<close> returns.
\<close>

fun update_ended :: "('t \<Rightarrow> bool) \<Rightarrow> 't list \<Rightarrow> ('t \<times> bool) list \<Rightarrow> error + ('t \<times> bool) list" where
  "update_ended ev [] flags = Inr flags"
| "update_ended ev (task # ts) flags =
     (case map_of flags task of
        None \<Rightarrow> Inl KeyError
      | Some ended \<Rightarrow>
          update_ended ev ts (if \<not> ended \<and> ev task then AList.update task True flags else flags))"

text \<open>\<open>all(self.task_has_ended[task] for task in group_tasks)\<close> stops at the first false flag.\<close>

fun group_has_ended :: "('t \<times> bool) list \<Rightarrow> 't list \<Rightarrow> error + bool" where
  "group_has_ended flags [] = Inr True"
| "group_has_ended flags (task # ts) =
     (case map_of flags task of
        None \<Rightarrow> Inl KeyError
      | Some ended \<Rightarrow> if ended then group_has_ended flags ts else Inr False)"

text \<open>The second loop: the first terminal group that has ended returns \<open>True\<close>.\<close>

fun any_group_has_ended :: "('t \<times> bool) list \<Rightarrow> (string \<times> 't list) list \<Rightarrow> error + bool" where
  "any_group_has_ended flags [] = Inr False"
| "any_group_has_ended flags ((terminal_group, group_tasks) # groups) =
     (case group_has_ended flags group_tasks of
        Inl e \<Rightarrow> Inl e
      | Inr ended \<Rightarrow> if ended then Inr True else any_group_has_ended flags groups)"

definition is_terminal ::
  "('t \<Rightarrow> 'a \<Rightarrow> 'b \<Rightarrow> 'c \<Rightarrow> bool) \<Rightarrow> ('t, 'r) Purpose \<Rightarrow> 'a \<Rightarrow> 'b \<Rightarrow> 'c
     \<Rightarrow> error + (bool \<times> ('t, 'r) Purpose)" where
  "is_terminal task_is_terminal p player_inventory position zones_inventory =
     (if tasks p = [] then Inr (False, p)
      else
        case update_ended (\<lambda>t. task_is_terminal t player_inventory position zones_inventory)
               (tasks p) (task_has_ended p) of
          Inl e \<Rightarrow> Inl e
        | Inr flags \<Rightarrow>
            (case any_group_has_ended flags (terminal_groups p) of
               Inl e \<Rightarrow> Inl e
             | Inr b \<Rightarrow> Inr (b, p\<lparr>task_has_ended := flags\<rparr>)))"

text \<open>
  An episode calls \<open>is_terminal\<close> once per step: the states of the steps are a list, the
  result is the list of the answers, each with the Purpose as that call left it.
\<close>

fun is_terminal_calls ::
  "('t \<Rightarrow> 'a \<Rightarrow> 'b \<Rightarrow> 'c \<Rightarrow> bool) \<Rightarrow> ('t, 'r) Purpose \<Rightarrow> ('a \<times> 'b \<times> 'c) list
     \<Rightarrow> error + (bool \<times> ('t, 'r) Purpose) list" where
  "is_terminal_calls task_is_terminal p [] = Inr []"
| "is_terminal_calls task_is_terminal p ((player_inventory, position, zones_inventory) # states) =
     (case is_terminal task_is_terminal p player_inventory position zones_inventory of
        Inl e \<Rightarrow> Inl e
      | Inr (b, p') \<Rightarrow>
          (case is_terminal_calls task_is_terminal p' states of
             Inl e \<Rightarrow> Inl e
           | Inr rest \<Rightarrow> Inr ((b, p') # rest)))"

text \<open>The property \<open>optional_tasks\<close>: the tasks in no terminal group at all.\<close>

definition optional_tasks :: "('t, 'r) Purpose \<Rightarrow> 't list" where
  "optional_tasks p =
     (let terminal_tasks = concat (map snd (terminal_groups p))
      in filter (\<lambda>task. task \<notin> set terminal_tasks) (tasks p))"

subsection \<open>Predicates of the specification\<close>

definition has_ended :: "('t, 'r) Purpose \<Rightarrow> 't \<Rightarrow> bool" where
  "has_ended p task = (map_of (task_has_ended p) task = Some True)"

definition terminal_by_groups :: "('t, 'r) Purpose \<Rightarrow> bool" where
  "terminal_by_groups p =
     (\<exists>group \<in> set (terminal_groups p). \<forall>task \<in> set (snd group). has_ended p task)"

definition wf_Purpose :: "('t, 'r) Purpose \<Rightarrow> bool" where
  "wf_Purpose p =
     (set (tasks p) \<subseteq> fst ` set (task_has_ended p) \<and>
      set (tasks p) \<subseteq> fst ` set (reward_shaping p) \<and>
      (\<forall>group \<in> set (terminal_groups p). snd group \<noteq> [] \<and> set (snd group) \<subseteq> set (tasks p)))"

definition three_tasks_purpose :: "'r \<Rightarrow> 'r \<Rightarrow> 't \<Rightarrow> 't \<Rightarrow> 't \<Rightarrow> ('t, 'r) Purpose" where
  "three_tasks_purpose timestep shaping A B C =
     add_task_with
       (add_task_with
          (add_task_with (empty_Purpose timestep (ShapingMember NONE) shaping)
             A NONE (GroupsList [''g1'', ''default'']))
          B NONE (GroupsStr ''g1''))
       C NONE (GroupsStr ''default'')"

text \<open>
  Concrete inputs, after the tests of the repository: a task is a goal position and has
  ended when the position is the goal (\<open>DummyPosEqualTask\<close>), the inventories are not
  looked at.
\<close>

definition position_task :: "nat \<Rightarrow> unit \<Rightarrow> nat \<Rightarrow> unit \<Rightarrow> bool" where
  "position_task goal_position player_inventory position zones_inventory =
     (position = goal_position)"

definition example_purpose :: "(nat, int) Purpose" where
  "example_purpose = three_tasks_purpose 0 1 0 1 2"

definition in_terminal_group :: "('t, 'r) Purpose \<Rightarrow> 't \<Rightarrow> bool" where
  "in_terminal_group p task = (\<exists>group \<in> set (terminal_groups p). task \<in> set (snd group))"

section \<open>Reward shaping: the subtasks synthesized by build\<close>

text \<open>
  Items and zones are identified by their names, an item stack is an item with a quantity.
  Their classes (crafting/world.py) are not among the sources; purpose.py reads
  \<open>item_stack.item\<close> only.
\<close>

datatype Item = Item string

datatype Zone = Zone string

datatype ItemStack = ItemStack (item: Item) (quantity: nat)

text \<open>
  Modelled from the spec: the task classes (crafting/task.py) are not among the sources.
  The spec has "polymorphic over variants GetItemTask, GoToZoneTask, PlaceItemTask; each
  wraps a goal (item, zone, or (item, zones)) and a reward value" and "ItemStack: (item,
  quantity), quantity default 1": a task built from an item wraps the stack of quantity 1,
  a PlaceItemTask built without zones has \<open>zones = None\<close>.

  purpose.py tells the tasks apart with \<open>isinstance\<close> and reads \<open>task.item_stack.item\<close>,
  \<open>task.zones\<close> (\<open>None\<close> or a list) and \<open>task.zone\<close>. \<open>OtherTask\<close> stands for
  every task that is an instance of none of the three classes (the tests add such tasks).
\<close>

datatype 'r TaskKind =
    GetItemTask ItemStack 'r
  | GoToZoneTask Zone 'r
  | PlaceItemTask ItemStack "Zone list option" 'r
  | OtherTask

text \<open>
  A task object is an identity with its content. The dictionaries of the Purpose are keyed
  by the task objects and Python compares them by identity: two tasks built by two calls
  are two keys, also when their contents are equal. A function that creates objects takes
  the first unused identity \<open>fresh\<close> and returns the next one.
\<close>

type_synonym 'r Task = "nat \<times> 'r TaskKind"

text \<open>
  The attributes of a transformation that purpose.py reads (the class is in
  crafting/transformation.py, not among the sources).
\<close>

record Transformation =
  produced_items :: "Item list"
  consumed_items :: "Item list"
  produced_zones_items :: "Item list"
  consumed_zones_items :: "Item list"
  destination :: "Zone option"
  zones :: "Zone list option"

text \<open>
  \<open>env.world.items\<close>, \<open>env.world.zones\<close> and \<open>env.world.zones_items\<close>; the field
  \<open>zones\<close> is named \<open>world_zones\<close> here, next to the \<open>zones\<close> of a transformation.
\<close>

record World =
  items :: "Item list"
  world_zones :: "Zone list"
  zones_items :: "Item list"

text \<open>
  A node of the requirements graph is named \<open>req_node_name(obj, type)\<close> and carries the
  attributes \<open>obj\<close> and \<open>type\<close>: here it is its type applied to its object.
\<close>

datatype req_node = ItemNode Item | ZoneNode Zone | ZoneItemNode Item

record requirements_graph =
  graph_nodes :: "req_node list"
  graph_edges :: "(req_node \<times> req_node) list"

record CraftingEnv =
  world :: World
  transformations :: "Transformation list"
  requirements_graph :: requirements_graph

text \<open>
  \<open>networkx.ancestors(G, source)\<close> is the set of the nodes that have a path to
  \<open>source\<close>, without \<open>source\<close> itself; it raises \<open>NetworkXError\<close> when \<open>source\<close> is
  not a node of the graph. A node with a path to \<open>source\<close> starts an edge.
\<close>

definition has_node :: "requirements_graph \<Rightarrow> req_node \<Rightarrow> bool" where
  "has_node G n = (n \<in> set (graph_nodes G) \<or> n \<in> fst ` set (graph_edges G) \<or> n \<in> snd ` set (graph_edges G))"

definition ancestors :: "requirements_graph \<Rightarrow> req_node \<Rightarrow> error + req_node list" where
  "ancestors G source =
     (if has_node G source
      then Inr (filter (\<lambda>n. n \<noteq> source \<and> (n, source) \<in> (set (graph_edges G))\<^sup>+)
                  (remdups (map fst (graph_edges G))))
      else Inl NetworkXError)"

text \<open>
  The three sets \<open>relevant_items\<close>, \<open>relevant_zones\<close> and \<open>relevant_zone_items\<close>. A
  Python set is a list without duplicates here (\<^const>\<open>List.insert\<close> for \<open>add\<close>,
  \<^const>\<open>List.union\<close> for \<open>|=\<close>); the order in which Python iterates over a set is not
  specified, so the theorems speak of the set of the subtasks only.
\<close>

type_synonym relevant = "Item list \<times> Zone list \<times> Item list"

text \<open>
  \<open>_build_reward_shaping_subtasks\<close>: one new task per element. The guards \<open>if items:\<close>
  skip what would add nothing.
\<close>

definition build_reward_shaping_subtasks ::
  "Item list \<Rightarrow> Zone list \<Rightarrow> Item list \<Rightarrow> 'r \<Rightarrow> nat \<Rightarrow> 'r Task list \<times> nat" where
  "build_reward_shaping_subtasks for_items for_zones for_zone_items shaping_reward fresh =
     (let subtasks =
            map (\<lambda>i. GetItemTask (ItemStack i 1) shaping_reward) for_items @
            map (\<lambda>z. GoToZoneTask z shaping_reward) for_zones @
            map (\<lambda>i. PlaceItemTask (ItemStack i 1) None shaping_reward) for_zone_items
      in (enumerate fresh subtasks, fresh + length subtasks))"

definition all_subtasks :: "CraftingEnv \<Rightarrow> 'r \<Rightarrow> nat \<Rightarrow> 'r Task list \<times> nat" where
  "all_subtasks env shaping_reward fresh =
     build_reward_shaping_subtasks (items (world env)) (world_zones (world env))
       (zones_items (world env)) shaping_reward fresh"

text \<open>
  \<open>_required_subtasks\<close>. The body of the inner loop sorts an ancestor by its type; the
  outer loop runs over the goal's nodes and stops at the first error of \<open>ancestors\<close>.
\<close>

fun add_ancestor :: "req_node \<Rightarrow> relevant \<Rightarrow> relevant" where
  "add_ancestor (ItemNode i) (relevant_items, relevant_zones, relevant_zone_items) =
     (List.insert i relevant_items, relevant_zones, relevant_zone_items)"
| "add_ancestor (ZoneNode z) (relevant_items, relevant_zones, relevant_zone_items) =
     (relevant_items, List.insert z relevant_zones, relevant_zone_items)"
| "add_ancestor (ZoneItemNode i) (relevant_items, relevant_zones, relevant_zone_items) =
     (relevant_items, relevant_zones, List.insert i relevant_zone_items)"

fun collect_ancestors :: "requirements_graph \<Rightarrow> req_node list \<Rightarrow> relevant \<Rightarrow> error + relevant" where
  "collect_ancestors G [] rel = Inr rel"
| "collect_ancestors G (requirement_node # nodes) rel =
     (case ancestors G requirement_node of
        Inl e \<Rightarrow> Inl e
      | Inr anc \<Rightarrow> collect_ancestors G nodes (fold add_ancestor anc rel))"

text \<open>
  The \<open>isinstance\<close> chain of \<open>_required_subtasks\<close>: the zones already relevant and the
  goal's nodes. \<open>task.zones if task.zones else []\<close> is empty for \<open>None\<close>.
\<close>

fun goal_requirement_nodes :: "'r TaskKind \<Rightarrow> error + (Zone list \<times> req_node list)" where
  "goal_requirement_nodes (GetItemTask item_stack r) = Inr ([], [ItemNode (item item_stack)])"
| "goal_requirement_nodes (PlaceItemTask item_stack task_zones r) =
     (let goal_zones = (case task_zones of None \<Rightarrow> [] | Some zs \<Rightarrow> zs)
      in Inr (fold List.insert goal_zones [],
              ZoneItemNode (item item_stack) # map ZoneNode goal_zones))"
| "goal_requirement_nodes (GoToZoneTask zone r) = Inr ([], [ZoneNode zone])"
| "goal_requirement_nodes OtherTask = Inl NotImplementedError"

definition required_subtasks ::
  "'r Task \<Rightarrow> CraftingEnv \<Rightarrow> 'r \<Rightarrow> nat \<Rightarrow> error + ('r Task list \<times> nat)" where
  "required_subtasks task env shaping_reward fresh =
     (case goal_requirement_nodes (snd task) of
        Inl e \<Rightarrow> Inl e
      | Inr (relevant_zones, nodes) \<Rightarrow>
          (case collect_ancestors (requirements_graph env) nodes ([], relevant_zones, []) of
             Inl e \<Rightarrow> Inl e
           | Inr (relevant_items, relevant_zones', relevant_zone_items) \<Rightarrow>
               Inr (build_reward_shaping_subtasks relevant_items relevant_zones'
                      relevant_zone_items shaping_reward fresh)))"

text \<open>
  The \<open>isinstance\<close> chain of \<open>_inputs_subtasks\<close>:
  \<open>(goal_item, goal_zone_item, goal_zones, relevant_zones)\<close>.
\<close>

fun inputs_goal :: "'r TaskKind \<Rightarrow> error + (Item option \<times> Item option \<times> Zone list \<times> Zone list)" where
  "inputs_goal (GetItemTask item_stack r) = Inr (Some (item item_stack), None, [], [])"
| "inputs_goal (GoToZoneTask zone r) = Inr (None, None, [zone], [])"
| "inputs_goal (PlaceItemTask item_stack task_zones r) =
     (case task_zones of
        None \<Rightarrow> Inr (None, Some (item item_stack), [], [])
      | Some zs \<Rightarrow>
          if zs = [] then Inr (None, Some (item item_stack), [], [])
          else Inr (None, Some (item item_stack), zs, List.union (remdups zs) []))"
| "inputs_goal OtherTask = Inl NotImplementedError"

text \<open>
  \<open>goal in produced and goal not in consumed\<close>; a goal that is \<open>None\<close> is in no list of
  items.
\<close>

definition gives :: "Item option \<Rightarrow> Item list \<Rightarrow> Item list \<Rightarrow> bool" where
  "gives goal produced consumed =
     (case goal of None \<Rightarrow> False | Some g \<Rightarrow> g \<in> set produced \<and> g \<notin> set consumed)"

definition goes_to :: "Zone list \<Rightarrow> Transformation \<Rightarrow> bool" where
  "goes_to goal_zones transfo =
     (case destination transfo of None \<Rightarrow> False | Some d \<Rightarrow> d \<in> set goal_zones)"

definition add_transformation_inputs :: "Transformation \<Rightarrow> relevant \<Rightarrow> relevant" where
  "add_transformation_inputs transfo rel =
     (case rel of (relevant_items, relevant_zones, relevant_zone_items) \<Rightarrow>
        (List.union (remdups (consumed_items transfo)) relevant_items,
         (case zones transfo of
            None \<Rightarrow> relevant_zones
          | Some zs \<Rightarrow> if zs = [] then relevant_zones else List.union (remdups zs) relevant_zones),
         List.union (remdups (consumed_zones_items transfo)) relevant_zone_items))"

definition inputs_subtasks ::
  "'r Task \<Rightarrow> CraftingEnv \<Rightarrow> 'r \<Rightarrow> nat \<Rightarrow> error + ('r Task list \<times> nat)" where
  "inputs_subtasks task env shaping_reward fresh =
     (case inputs_goal (snd task) of
        Inl e \<Rightarrow> Inl e
      | Inr (goal_item, goal_zone_item, goal_zones, relevant_zones) \<Rightarrow>
          (let transfo_giving_item =
                 filter (\<lambda>transfo. gives goal_item (produced_items transfo) (consumed_items transfo))
                   (transformations env);
               transfo_placing_zone_item =
                 filter (\<lambda>transfo. gives goal_zone_item (produced_zones_items transfo)
                                     (consumed_zones_items transfo))
                   (transformations env);
               transfo_going_to_any_zones = filter (goes_to goal_zones) (transformations env);
               relevant_transformations =
                 transfo_giving_item @ transfo_placing_zone_item @ transfo_going_to_any_zones
           in case fold add_transformation_inputs relevant_transformations ([], relevant_zones, []) of
                (relevant_items, relevant_zones', relevant_zone_items) \<Rightarrow>
                  Inr (build_reward_shaping_subtasks relevant_items relevant_zones'
                         relevant_zone_items shaping_reward fresh)))"

text \<open>
  \<open>_add_reward_shaping_subtasks\<close>. The four members of the enumeration are covered, so the
  final \<open>raise NotImplementedError\<close> is never reached.
\<close>

definition add_reward_shaping_subtasks ::
  "('r Task, 'r) Purpose \<Rightarrow> 'r Task \<Rightarrow> CraftingEnv \<Rightarrow> RewardShaping \<Rightarrow> nat
     \<Rightarrow> error + ('r Task list \<times> nat)" where
  "add_reward_shaping_subtasks p task env shaping fresh =
     (case shaping of
        NONE \<Rightarrow> Inr ([], fresh)
      | ALL_ACHIVEMENTS \<Rightarrow> Inr (all_subtasks env (shaping_value p) fresh)
      | INPUTS_ACHIVEMENT \<Rightarrow> inputs_subtasks task env (shaping_value p) fresh
      | REQUIRED_ACHIVEMENTS \<Rightarrow> required_subtasks task env (shaping_value p) fresh)"

text \<open>
  \<open>for subtask in subtasks: self.add_task(subtask, RewardShaping.NONE, terminal_groups=None)\<close>.
\<close>

fun add_subtasks :: "('t, 'r) Purpose \<Rightarrow> 't list \<Rightarrow> error + ('t, 'r) Purpose" where
  "add_subtasks p [] = Inr p"
| "add_subtasks p (subtask # subtasks) =
     (case add_task p subtask (Some (ShapingMember NONE)) GroupsNone of
        Inl e \<Rightarrow> Inl e
      | Inr p' \<Rightarrow> add_subtasks p' subtasks)"

text \<open>
  One turn of the first loop of \<open>build\<close>, for the task at hand.
\<close>

definition shape_task ::
  "CraftingEnv \<Rightarrow> ('r Task, 'r) Purpose \<Rightarrow> 'r Task \<Rightarrow> nat \<Rightarrow> error + (('r Task, 'r) Purpose \<times> nat)" where
  "shape_task env p task fresh =
     (case map_of (reward_shaping p) task of
        None \<Rightarrow> Inl KeyError
      | Some shaping \<Rightarrow>
          (case add_reward_shaping_subtasks p task env shaping fresh of
             Inl e \<Rightarrow> Inl e
           | Inr (subtasks, fresh') \<Rightarrow>
               (case add_subtasks p subtasks of
                  Inl e \<Rightarrow> Inl e
                | Inr p' \<Rightarrow> Inr (p', fresh'))))"

text \<open>
  The loop \<open>for task in self.tasks\<close> reads the list by index while its body appends to
  it, so it also visits the subtasks it has added. It ends all the same: the tasks still to
  visit whose shaping is not \<open>NONE\<close> get fewer at each turn that adds subtasks, and the
  other turns add nothing.
\<close>

definition pending :: "('t, 'r) Purpose \<Rightarrow> nat \<Rightarrow> nat" where
  "pending p i = length (filter (\<lambda>t. map_of (reward_shaping p) t \<noteq> Some NONE) (drop i (tasks p)))"

text \<open>
  What \<open>add_subtasks\<close> builds, as a fold.
\<close>

definition add_optional :: "('t, 'r) Purpose \<Rightarrow> 't list \<Rightarrow> ('t, 'r) Purpose" where
  "add_optional p subtasks = fold (\<lambda>s q. add_task_with q s NONE GroupsNone) subtasks p"

lemma add_optional_simps:
  "add_optional p [] = p"
  "add_optional p (s # subtasks) = add_optional (add_task_with p s NONE GroupsNone) subtasks"
  "add_optional p (subtasks @ others) = add_optional (add_optional p subtasks) others"
  by (simp_all add: add_optional_def)

lemma add_subtasks_fold:
  "add_subtasks p subtasks = Inr (add_optional p subtasks)"
  by (induction subtasks arbitrary: p) (simp_all add: add_task_def add_optional_simps)

lemma fold_add_optional_fields:
  "tasks (add_optional p subtasks) = tasks p @ subtasks"
  "terminal_groups (add_optional p subtasks) = terminal_groups p"
  "timestep_reward (add_optional p subtasks) = timestep_reward p"
  "shaping_value (add_optional p subtasks) = shaping_value p"
  "default_reward_shaping (add_optional p subtasks) = default_reward_shaping p"
  by (induction subtasks arbitrary: p) (simp_all add: add_task_with_def add_optional_simps)

lemma fold_add_optional_shaping:
  "map_of (reward_shaping (add_optional p subtasks)) x =
     (if x \<in> set subtasks then Some NONE else map_of (reward_shaping p) x)"
  by (induction subtasks arbitrary: p) (auto simp: add_task_with_def update_conv' add_optional_simps)

lemma fold_add_optional_ended:
  "map_of (task_has_ended (add_optional p subtasks)) x =
     (if x \<in> set subtasks then Some False else map_of (task_has_ended p) x)"
  by (induction subtasks arbitrary: p) (auto simp: add_task_with_def update_conv' add_optional_simps)

lemma shape_task_cases:
  assumes "shape_task env p task fresh = Inr (p', fresh')"
  obtains shaping subtasks where "map_of (reward_shaping p) task = Some shaping"
    and "add_reward_shaping_subtasks p task env shaping fresh = Inr (subtasks, fresh')"
    and "p' = add_optional p subtasks"
  using assms
  by (auto simp: shape_task_def add_subtasks_fold split: option.splits sum.splits)

lemma length_filter_mono:
  "(\<And>x. x \<in> set xs \<Longrightarrow> P x \<Longrightarrow> Q x) \<Longrightarrow> length (filter P xs) \<le> length (filter Q xs)"
  by (induction xs) auto

lemma pending_step:
  assumes "i < length (tasks p)" and "shape_task env p (tasks p ! i) fresh = Inr (p', fresh')"
  shows "pending p' (Suc i) < pending p i \<or>
         (pending p' (Suc i) = pending p i \<and> length (tasks p') - Suc i < length (tasks p) - i)"
proof -
  from assms(2) obtain shaping subtasks
    where sh: "map_of (reward_shaping p) (tasks p ! i) = Some shaping"
      and sub: "add_reward_shaping_subtasks p (tasks p ! i) env shaping fresh = Inr (subtasks, fresh')"
      and p': "p' = add_optional p subtasks"
    by (rule shape_task_cases)
  let ?P = "\<lambda>t. map_of (reward_shaping p) t \<noteq> Some NONE"
  let ?P' = "\<lambda>t. map_of (reward_shaping p') t \<noteq> Some NONE"
  have imp: "?P t \<and> t \<notin> set subtasks" if "?P' t" for t
    using that by (simp add: p' fold_add_optional_shaping split: if_splits)
  have drop: "drop i (tasks p) = tasks p ! i # drop (Suc i) (tasks p)"
    using assms(1) by (simp add: Cons_nth_drop_Suc)
  have tasks': "drop (Suc i) (tasks p') = drop (Suc i) (tasks p) @ subtasks"
    using assms(1) by (simp add: p' fold_add_optional_fields)
  have none: "filter ?P' subtasks = []"
    using imp by (auto simp: filter_empty_conv)
  have "length (filter ?P' (drop (Suc i) (tasks p))) \<le> length (filter ?P (drop (Suc i) (tasks p)))"
    by (rule length_filter_mono) (use imp in blast)
  with none have le: "pending p' (Suc i) \<le> length (filter ?P (drop (Suc i) (tasks p)))"
    unfolding pending_def tasks' filter_append by simp
  show ?thesis
  proof (cases "shaping = NONE")
    case True
    with sub have "subtasks = []" by (simp add: add_reward_shaping_subtasks_def)
    with p' have "p' = p" by (simp add: add_optional_simps)
    with True sh drop assms(1) show ?thesis by (simp add: pending_def)
  next
    case False
    with sh have "?P (tasks p ! i)" by simp
    then have "pending p i = Suc (length (filter ?P (drop (Suc i) (tasks p))))"
      unfolding pending_def drop by simp
    with le show ?thesis by simp
  qed
qed

definition build_loop_order ::
  "((CraftingEnv \<times> nat \<times> ('t, 'r) Purpose \<times> nat) \<times> (CraftingEnv \<times> nat \<times> ('t, 'r) Purpose \<times> nat)) set" where
  "build_loop_order =
     inv_image (less_than <*lex*> less_than)
       (\<lambda>(env, i, p, fresh). (pending p i, length (tasks p) - i))"

lemma wf_build_loop_order: "wf build_loop_order"
  unfolding build_loop_order_def by (intro wf_inv_image wf_lex_prod wf_less_than)

lemma build_loop_decreases:
  assumes "i < length (tasks p)" and "shape_task env p (tasks p ! i) fresh = Inr (p', fresh')"
  shows "((env, Suc i, p', fresh'), (env, i, p, fresh)) \<in> build_loop_order"
  using pending_step [OF assms] by (auto simp: build_loop_order_def)

function build_loop ::
  "CraftingEnv \<Rightarrow> nat \<Rightarrow> ('r Task, 'r) Purpose \<Rightarrow> nat \<Rightarrow> error + (('r Task, 'r) Purpose \<times> nat)" where
  "build_loop env i p fresh =
     (if i < length (tasks p) then
        (case shape_task env p (tasks p ! i) fresh of
           Inl e \<Rightarrow> Inl e
         | Inr (p', fresh') \<Rightarrow> build_loop env (Suc i) p' fresh')
      else Inr (p, fresh))"
  by pat_completeness auto
termination
  by (relation build_loop_order) (auto simp: wf_build_loop_order intro: build_loop_decreases)

declare build_loop.simps [simp del]

text \<open>
  \<open>build\<close>. The second loop calls \<open>task.build(env.world)\<close> on every task, which binds
  the task to the world and touches no field of the Purpose.
\<close>

definition build ::
  "CraftingEnv \<Rightarrow> ('r Task, 'r) Purpose \<Rightarrow> nat \<Rightarrow> error + (('r Task, 'r) Purpose \<times> nat)" where
  "build env p fresh = (if tasks p = [] then Inr (p, fresh) else build_loop env 0 p fresh)"


subsection \<open>Predicates and functions of the specification of build\<close>

text \<open>
  The first loop of \<open>build\<close> restricted to a given list of tasks: it visits these tasks
  only, not the subtasks it adds.
\<close>

fun shape_tasks ::
  "CraftingEnv \<Rightarrow> 'r Task list \<Rightarrow> ('r Task, 'r) Purpose \<Rightarrow> nat \<Rightarrow> error + (('r Task, 'r) Purpose \<times> nat)" where
  "shape_tasks env [] p fresh = Inr (p, fresh)"
| "shape_tasks env (task # ts) p fresh =
     (case shape_task env p task fresh of
        Inl e \<Rightarrow> Inl e
      | Inr (p', fresh') \<Rightarrow> shape_tasks env ts p' fresh')"

text \<open>
  The contents of the subtasks synthesized for one task, and for a list of tasks in turn,
  all looked up in one and the same Purpose.
\<close>

definition subtask_kinds ::
  "CraftingEnv \<Rightarrow> ('r Task, 'r) Purpose \<Rightarrow> 'r Task \<Rightarrow> error + 'r TaskKind list" where
  "subtask_kinds env p task =
     (case map_of (reward_shaping p) task of
        None \<Rightarrow> Inl KeyError
      | Some shaping \<Rightarrow>
          (case add_reward_shaping_subtasks p task env shaping 0 of
             Inl e \<Rightarrow> Inl e
           | Inr (subtasks, n) \<Rightarrow> Inr (map snd subtasks)))"

fun all_subtask_kinds ::
  "CraftingEnv \<Rightarrow> ('r Task, 'r) Purpose \<Rightarrow> 'r Task list \<Rightarrow> error + 'r TaskKind list" where
  "all_subtask_kinds env p [] = Inr []"
| "all_subtask_kinds env p (task # ts) =
     (case subtask_kinds env p task of
        Inl e \<Rightarrow> Inl e
      | Inr kinds \<Rightarrow>
          (case all_subtask_kinds env p ts of
             Inl e \<Rightarrow> Inl e
           | Inr others \<Rightarrow> Inr (kinds @ others)))"

text \<open>
  The contents of the tasks that \<open>build_reward_shaping_subtasks\<close> creates.
\<close>

definition reward_shaping_kinds :: "Item list \<Rightarrow> Zone list \<Rightarrow> Item list \<Rightarrow> 'r \<Rightarrow> 'r TaskKind list" where
  "reward_shaping_kinds for_items for_zones for_zone_items shaping_reward =
     map (\<lambda>i. GetItemTask (ItemStack i 1) shaping_reward) for_items @
     map (\<lambda>z. GoToZoneTask z shaping_reward) for_zones @
     map (\<lambda>i. PlaceItemTask (ItemStack i 1) None shaping_reward) for_zone_items"

text \<open>
  The identities of the tasks of the Purpose are all in use: a new object gets another one.
\<close>

definition ids_below :: "nat \<Rightarrow> ('r Task, 'r) Purpose \<Rightarrow> bool" where
  "ids_below fresh p = (\<forall>t \<in> set (tasks p). fst t < fresh)"

text \<open>
  Modelled from the spec: the construction of the requirements graph
  (crafting/requirement_graph.py) is not among the sources. The spec has "for every
  transformation, for every produced element (an added item in player inventory: ITEM
  node; an added item in a zone inventory: ZONE_ITEM node; a destination: ZONE node), add
  a directed edge from every consumed element of that same transformation (its remove
  entries, and the zones in its zones precondition or the zone it moves from, mapped to the
  corresponding node kind) to the produced node". The zone a transformation moves from is
  read from its zones precondition.
\<close>

definition produced_nodes :: "Transformation \<Rightarrow> req_node list" where
  "produced_nodes transfo =
     map ItemNode (produced_items transfo) @ map ZoneItemNode (produced_zones_items transfo) @
     (case destination transfo of None \<Rightarrow> [] | Some z \<Rightarrow> [ZoneNode z])"

text \<open>
  Modelled from the spec: the consumed elements of a transformation, as nodes (see
  \<open>produced_nodes\<close>).
\<close>

definition consumed_nodes :: "Transformation \<Rightarrow> req_node list" where
  "consumed_nodes transfo =
     map ItemNode (consumed_items transfo) @ map ZoneItemNode (consumed_zones_items transfo) @
     (case zones transfo of None \<Rightarrow> [] | Some zs \<Rightarrow> map ZoneNode zs)"

text \<open>
  Modelled from the spec: the requirements graph of a world (see \<open>produced_nodes\<close>);
  its nodes are the items, zones and zone items of the world.
\<close>

definition build_requirements_graph :: "World \<Rightarrow> Transformation list \<Rightarrow> requirements_graph" where
  "build_requirements_graph w transfos =
     \<lparr> graph_nodes = map ItemNode (items w) @ map ZoneNode (world_zones w) @
                      map ZoneItemNode (zones_items w),
       graph_edges = concat (map (\<lambda>transfo.
                       concat (map (\<lambda>produced. map (\<lambda>consumed. (consumed, produced))
                                      (consumed_nodes transfo))
                                 (produced_nodes transfo)))
                     transfos) \<rparr>"

text \<open>
  The world of the scenario: \<open>search_0\<close> gives item 0, \<open>craft_1\<close> turns item 0 into
  item 1, \<open>craft_2\<close> turns item 1 into item 2 in zone Z. The goal is to get item 2, with
  reward 10, in the default terminal group of a Purpose with shaping value 1.
\<close>

definition item0 :: Item where "item0 = Item ''item0''"

definition item1 :: Item where "item1 = Item ''item1''"

definition item2 :: Item where "item2 = Item ''item2''"

definition zone_Z :: Zone where "zone_Z = Zone ''Z''"

definition search_0 :: Transformation where
  "search_0 = \<lparr> produced_items = [item0], consumed_items = [], produced_zones_items = [],
                consumed_zones_items = [], destination = None, zones = None \<rparr>"

definition craft_1 :: Transformation where
  "craft_1 = \<lparr> produced_items = [item1], consumed_items = [item0], produced_zones_items = [],
               consumed_zones_items = [], destination = None, zones = None \<rparr>"

definition craft_2 :: Transformation where
  "craft_2 = \<lparr> produced_items = [item2], consumed_items = [item1], produced_zones_items = [],
               consumed_zones_items = [], destination = None, zones = Some [zone_Z] \<rparr>"

definition scenario_world :: World where
  "scenario_world = \<lparr> items = [item0, item1, item2], world_zones = [zone_Z], zones_items = [] \<rparr>"

definition scenario_env :: CraftingEnv where
  "scenario_env =
     \<lparr> world = scenario_world, transformations = [search_0, craft_1, craft_2],
       requirements_graph = build_requirements_graph scenario_world [search_0, craft_1, craft_2] \<rparr>"

definition get_item_2 :: "int Task" where
  "get_item_2 = (0, GetItemTask (ItemStack item2 1) 10)"

definition scenario_purpose :: "RewardShaping \<Rightarrow> (int Task, int) Purpose" where
  "scenario_purpose shaping =
     add_task_with (empty_Purpose 0 (ShapingMember NONE) 1) get_item_2 shaping (GroupsStr ''default'')"

text \<open>
  The words of the claim on INPUTS shaping: a transformation produces the goal without also
  consuming it, and the inputs of a set of transformations are the elements of their remove
  sets (items and zone items) and of their zones preconditions, each as the content of its
  subtask. What the code adds to that for a \<open>PlaceItemTask\<close> with candidate zones: the
  transformations going to a candidate zone and the candidate zones themselves.
\<close>

definition candidate_zones :: "'r TaskKind \<Rightarrow> Zone list" where
  "candidate_zones goal =
     (case goal of PlaceItemTask item_stack (Some zs) r \<Rightarrow> zs | _ \<Rightarrow> [])"

definition produces_goal :: "'r TaskKind \<Rightarrow> Transformation \<Rightarrow> bool" where
  "produces_goal goal transfo =
     (case goal of
        GetItemTask item_stack r \<Rightarrow>
          item item_stack \<in> set (produced_items transfo) \<and>
          item item_stack \<notin> set (consumed_items transfo)
      | PlaceItemTask item_stack zs r \<Rightarrow>
          item item_stack \<in> set (produced_zones_items transfo) \<and>
          item item_stack \<notin> set (consumed_zones_items transfo)
      | GoToZoneTask zone r \<Rightarrow> destination transfo = Some zone
      | OtherTask \<Rightarrow> False)"

definition inputs_of :: "Transformation set \<Rightarrow> 'r \<Rightarrow> 'r TaskKind set" where
  "inputs_of transfos shaping_reward =
     (\<Union>transfo \<in> transfos.
        (\<lambda>i. GetItemTask (ItemStack i 1) shaping_reward) ` set (consumed_items transfo) \<union>
        (\<lambda>z. GoToZoneTask z shaping_reward) `
          (case zones transfo of None \<Rightarrow> {} | Some zs \<Rightarrow> set zs) \<union>
        (\<lambda>i. PlaceItemTask (ItemStack i 1) None shaping_reward) ` set (consumed_zones_items transfo))"

definition relevant_transformation :: "'r TaskKind \<Rightarrow> Transformation \<Rightarrow> bool" where
  "relevant_transformation goal transfo =
     (produces_goal goal transfo \<or> goes_to (candidate_zones goal) transfo)"


section \<open>Reward and termination of the Purpose\<close>

lemma update_ended_map_of:
  "update_ended ev ts flags = Inr flags' \<Longrightarrow>
   map_of flags' t = (case map_of flags t of None \<Rightarrow> None | Some b \<Rightarrow> Some (b \<or> (t \<in> set ts \<and> ev t)))"
proof (induction ts arbitrary: flags)
  case Nil
  then show ?case by (auto split: option.splits)
next
  case (Cons a ts)
  then show ?case
    by (auto simp: update_conv' split: option.splits if_splits)
qed

lemma update_ended_total:
  "set ts \<subseteq> fst ` set flags \<Longrightarrow>
   \<exists>flags'. update_ended ev ts flags = Inr flags' \<and> fst ` set flags' = fst ` set flags"
proof (induction ts arbitrary: flags)
  case Nil
  then show ?case by simp
next
  case (Cons a ts)
  from Cons.prems have "map_of flags a \<noteq> None" by (simp add: map_of_eq_None_iff)
  then obtain b where b: "map_of flags a = Some b" by auto
  let ?flags = "if \<not> b \<and> ev a then AList.update a True flags else flags"
  from Cons.prems have keys: "fst ` set ?flags = fst ` set flags"
    by (auto simp: dom_update)
  with Cons.prems have "set ts \<subseteq> fst ` set ?flags" by simp
  from Cons.IH [OF this] keys b show ?case by simp
qed

lemma group_has_ended_iff:
  "group_has_ended flags ts = Inr b \<Longrightarrow> b = (\<forall>t \<in> set ts. map_of flags t = Some True)"
  by (induction ts) (auto split: option.splits if_splits)

lemma group_has_ended_eq:
  "set ts \<subseteq> fst ` set flags \<Longrightarrow>
   group_has_ended flags ts = Inr (\<forall>t \<in> set ts. map_of flags t = Some True)"
proof (induction ts)
  case Nil
  show ?case by simp
next
  case (Cons a ts)
  from Cons.prems have "map_of flags a \<noteq> None" by (simp add: map_of_eq_None_iff)
  then obtain b where b: "map_of flags a = Some b" by auto
  from Cons.prems have "group_has_ended flags ts = Inr (\<forall>t \<in> set ts. map_of flags t = Some True)"
    by (intro Cons.IH) simp
  with b show ?case by simp
qed

lemma any_group_has_ended_iff:
  "any_group_has_ended flags groups = Inr b \<Longrightarrow>
   b = (\<exists>group \<in> set groups. \<forall>t \<in> set (snd group). map_of flags t = Some True)"
proof (induction groups)
  case Nil
  then show ?case by simp
next
  case (Cons g groups)
  obtain name ts where g: "g = (name, ts)" by (cases g)
  show ?case
  proof (cases "group_has_ended flags ts")
    case (Inl e)
    with Cons.prems g show ?thesis by simp
  next
    case (Inr c)
    note c = group_has_ended_iff [OF Inr]
    show ?thesis
    proof (cases c)
      case True
      with Cons.prems g Inr c show ?thesis by auto
    next
      case False
      with Cons.prems g Inr have "any_group_has_ended flags groups = Inr b" by simp
      from Cons.IH [OF this] False c g show ?thesis by auto
    qed
  qed
qed

lemma any_group_has_ended_eq:
  "\<forall>group \<in> set groups. set (snd group) \<subseteq> fst ` set flags \<Longrightarrow>
   any_group_has_ended flags groups =
     Inr (\<exists>group \<in> set groups. \<forall>t \<in> set (snd group). map_of flags t = Some True)"
proof (induction groups)
  case Nil
  show ?case by simp
next
  case (Cons g groups)
  obtain name ts where g: "g = (name, ts)" by (cases g)
  from Cons.prems g have "set ts \<subseteq> fst ` set flags" by simp
  note c = group_has_ended_eq [OF this]
  from Cons.prems have "any_group_has_ended flags groups =
     Inr (\<exists>group \<in> set groups. \<forall>t \<in> set (snd group). map_of flags t = Some True)"
    by (intro Cons.IH) simp
  with c g show ?case by auto
qed

lemma wf_no_tasks_no_groups: "wf_Purpose p \<Longrightarrow> tasks p = [] \<Longrightarrow> terminal_groups p = []"
  by (cases "terminal_groups p") (auto simp: wf_Purpose_def)

lemma is_terminal_step:
  assumes wf: "wf_Purpose p"
  shows "\<exists>p'. is_terminal tit p a b c = Inr (terminal_by_groups p', p') \<and>
           wf_Purpose p' \<and> tasks p' = tasks p \<and> terminal_groups p' = terminal_groups p \<and>
           reward_shaping p' = reward_shaping p \<and>
           (\<forall>t. has_ended p' t = (has_ended p t \<or> (t \<in> set (tasks p) \<and> tit t a b c)))"
proof (cases "tasks p = []")
  case True
  with wf have "terminal_groups p = []" by (simp add: wf_no_tasks_no_groups)
  with True wf show ?thesis
    by (simp add: is_terminal_def terminal_by_groups_def)
next
  case False
  let ?ev = "\<lambda>t. tit t a b c"
  from wf have keys: "set (tasks p) \<subseteq> fst ` set (task_has_ended p)"
    by (simp add: wf_Purpose_def)
  from update_ended_total [OF keys] obtain flags
    where flags: "update_ended ?ev (tasks p) (task_has_ended p) = Inr flags"
      and keys': "fst ` set flags = fst ` set (task_has_ended p)" by blast
  note m = update_ended_map_of [OF flags]
  from wf keys keys' have "\<forall>group \<in> set (terminal_groups p). set (snd group) \<subseteq> fst ` set flags"
    unfolding wf_Purpose_def by blast
  note g = any_group_has_ended_eq [OF this]
  let ?p' = "p\<lparr>task_has_ended := flags\<rparr>"
  have 1: "is_terminal tit p a b c = Inr (terminal_by_groups ?p', ?p')"
    using False flags g by (simp add: is_terminal_def terminal_by_groups_def has_ended_def)
  have 2: "wf_Purpose ?p'"
    using wf keys' by (simp add: wf_Purpose_def)
  have 3: "\<forall>t. has_ended ?p' t = (has_ended p t \<or> (t \<in> set (tasks p) \<and> tit t a b c))"
  proof
    fix t
    show "has_ended ?p' t = (has_ended p t \<or> (t \<in> set (tasks p) \<and> tit t a b c))"
    proof (cases "map_of (task_has_ended p) t")
      case None
      with keys have "t \<notin> set (tasks p)" by (auto simp: map_of_eq_None_iff)
      with None show ?thesis by (simp add: has_ended_def m)
    next
      case (Some b)
      then show ?thesis by (auto simp: has_ended_def m)
    qed
  qed
  from 1 2 3 show ?thesis by (intro exI [of _ ?p']) simp
qed

lemma is_terminal_calls_steps:
  assumes "wf_Purpose p"
  shows "\<exists>rs. is_terminal_calls tit p states = Inr rs \<and> length rs = length states \<and>
           (\<forall>r \<in> set rs. fst r = terminal_by_groups (snd r) \<and> wf_Purpose (snd r) \<and>
                tasks (snd r) = tasks p \<and> terminal_groups (snd r) = terminal_groups p \<and>
                (\<forall>t. has_ended p t \<longrightarrow> has_ended (snd r) t))"
  using assms
proof (induction states arbitrary: p)
  case Nil
  show ?case by simp
next
  case (Cons s states)
  obtain a b c where s: "s = (a, b, c)" by (cases s)
  from is_terminal_step [OF Cons.prems, of tit a b c] obtain p'
    where step: "is_terminal tit p a b c = Inr (terminal_by_groups p', p')"
      and wf': "wf_Purpose p'" and same: "tasks p' = tasks p" "terminal_groups p' = terminal_groups p"
      and ended: "\<forall>t. has_ended p' t = (has_ended p t \<or> (t \<in> set (tasks p) \<and> tit t a b c))"
    by blast
  from Cons.IH [OF wf'] obtain rs
    where rs: "is_terminal_calls tit p' states = Inr rs" "length rs = length states"
      and all: "\<forall>r \<in> set rs. fst r = terminal_by_groups (snd r) \<and> wf_Purpose (snd r) \<and>
                tasks (snd r) = tasks p' \<and> terminal_groups (snd r) = terminal_groups p' \<and>
                (\<forall>t. has_ended p' t \<longrightarrow> has_ended (snd r) t)"
    by blast
  have "is_terminal_calls tit p (s # states) = Inr ((terminal_by_groups p', p') # rs)"
    using s step rs by simp
  moreover have "\<forall>r \<in> set ((terminal_by_groups p', p') # rs).
      fst r = terminal_by_groups (snd r) \<and> wf_Purpose (snd r) \<and>
      tasks (snd r) = tasks p \<and> terminal_groups (snd r) = terminal_groups p \<and>
      (\<forall>t. has_ended p t \<longrightarrow> has_ended (snd r) t)"
    using wf' same ended all by auto
  ultimately show ?case using rs(2) by (intro exI [of _ "(terminal_by_groups p', p') # rs"]) simp
qed

lemma set_update_subset: "set (AList.update k v al) \<subseteq> insert (k, v) (set al)"
  by (induction al) auto

lemma add_to_group_members:
  assumes "\<forall>group \<in> set groups. snd group \<noteq> [] \<and> set (snd group) \<subseteq> S"
  shows "\<forall>group \<in> set (add_to_group task g groups). snd group \<noteq> [] \<and> set (snd group) \<subseteq> insert task S"
proof
  fix group assume mem: "group \<in> set (add_to_group task g groups)"
  show "snd group \<noteq> [] \<and> set (snd group) \<subseteq> insert task S"
  proof (cases "map_of groups g")
    case None
    then have "set (add_to_group task g groups) \<subseteq> insert (g, [task]) (set groups)"
      by (simp add: add_to_group_def set_update_subset)
    with mem have "group = (g, [task]) \<or> group \<in> set groups" by blast
    with assms show ?thesis by auto
  next
    case (Some ts)
    then have "(g, ts) \<in> set groups" by (rule map_of_SomeD)
    with assms have ts: "set ts \<subseteq> S" by force
    from Some have "set (add_to_group task g groups) \<subseteq> insert (g, ts @ [task]) (set groups)"
      by (simp add: add_to_group_def set_update_subset)
    with mem have "group = (g, ts @ [task]) \<or> group \<in> set groups" by blast
    with assms ts show ?thesis by auto
  qed
qed

lemma fold_add_to_group_members:
  "\<forall>group \<in> set groups. snd group \<noteq> [] \<and> set (snd group) \<subseteq> insert task S \<Longrightarrow>
   \<forall>group \<in> set (fold (add_to_group task) gs groups). snd group \<noteq> [] \<and> set (snd group) \<subseteq> insert task S"
proof (induction gs arbitrary: groups)
  case Nil
  then show ?case by simp
next
  case (Cons g gs)
  from add_to_group_members [OF Cons.prems, of task g]
  have "\<forall>group \<in> set (add_to_group task g groups). snd group \<noteq> [] \<and> set (snd group) \<subseteq> insert task S"
    by simp
  from Cons.IH [OF this] show ?case by simp
qed

lemma wf_empty_Purpose: "wf_Purpose (empty_Purpose timestep default_shaping shaping)"
  by (simp add: wf_Purpose_def empty_Purpose_def)

lemma wf_add_task_with:
  assumes "wf_Purpose p"
  shows "wf_Purpose (add_task_with p task m groups)"
proof -
  from assms have "\<forall>group \<in> set (terminal_groups p). snd group \<noteq> [] \<and> set (snd group) \<subseteq> insert task (set (tasks p))"
    by (auto simp: wf_Purpose_def)
  from fold_add_to_group_members [OF this, of "groups_of_arg groups"]
  have "\<forall>group \<in> set (fold (add_to_group task) (groups_of_arg groups) (terminal_groups p)).
          snd group \<noteq> [] \<and> set (snd group) \<subseteq> set (tasks p @ [task])" by simp
  moreover from assms have "set (tasks p @ [task]) \<subseteq> fst ` set (AList.update task False (task_has_ended p))"
    "set (tasks p @ [task]) \<subseteq> fst ` set (AList.update task m (reward_shaping p))"
    by (auto simp: wf_Purpose_def dom_update)
  ultimately show ?thesis
    by (simp add: wf_Purpose_def add_task_with_def)
qed

lemma wf_add_task: "wf_Purpose p \<Longrightarrow> add_task p task s groups = Inr p' \<Longrightarrow> wf_Purpose p'"
  by (auto simp: add_task_def wf_add_task_with split: sum.splits)

lemma wf_add_tasks: "wf_Purpose p \<Longrightarrow> add_tasks p ts = Inr p' \<Longrightarrow> wf_Purpose p'"
  by (induction ts arbitrary: p) (auto split: sum.splits dest: wf_add_task)

lemma wf_Purpose_init: "Purpose_init ts timestep d shaping = Inr p \<Longrightarrow> wf_Purpose p"
  unfolding Purpose_init_def by (rule wf_add_tasks [OF wf_empty_Purpose])

lemma wf_three_tasks_purpose: "wf_Purpose (three_tasks_purpose timestep shaping A B C)"
  unfolding three_tasks_purpose_def by (intro wf_add_task_with wf_empty_Purpose)

lemma terminal_groups_three_tasks_purpose:
  "terminal_groups (three_tasks_purpose timestep shaping A B C) =
     [(''g1'', [A, B]), (''default'', [A, C])]"
  by (simp add: three_tasks_purpose_def add_task_with_def empty_Purpose_def add_to_group_def)

text \<open>
  C1. Along every sequence of \<open>is_terminal\<close> calls on a well-formed Purpose, each call
  returns, and its answer is true exactly when some terminal group has all its member tasks
  flagged ended after that call. For the Purpose with task \<open>A\<close> in the groups \<open>g1\<close> and
  \<open>default\<close>, \<open>B\<close> in \<open>g1\<close> and \<open>C\<close> in \<open>default\<close>, the answer is
  \<open>(A done \<and> B done) \<or> (A done \<and> C done)\<close>.
\<close>

theorem is_terminal_iff_some_group_ended:
  "(wf_Purpose p \<longrightarrow>
      (\<exists>rs. is_terminal_calls tit p states = Inr rs \<and> length rs = length states \<and>
         (\<forall>r \<in> set rs. fst r = terminal_by_groups (snd r)))) \<and>
   (\<exists>rs. is_terminal_calls tit (three_tasks_purpose timestep shaping A B C) states = Inr rs \<and>
      length rs = length states \<and>
      (\<forall>r \<in> set rs. fst r =
         (has_ended (snd r) A \<and> has_ended (snd r) B \<or> has_ended (snd r) A \<and> has_ended (snd r) C)))"
proof (intro conjI impI)
  assume "wf_Purpose p"
  from is_terminal_calls_steps [OF this, of tit states]
  show "\<exists>rs. is_terminal_calls tit p states = Inr rs \<and> length rs = length states \<and>
         (\<forall>r \<in> set rs. fst r = terminal_by_groups (snd r))" by blast
next
  let ?p = "three_tasks_purpose timestep shaping A B C"
  from is_terminal_calls_steps [OF wf_three_tasks_purpose, of tit timestep shaping A B C states]
  obtain rs where rs: "is_terminal_calls tit ?p states = Inr rs" "length rs = length states"
    and all: "\<forall>r \<in> set rs. fst r = terminal_by_groups (snd r) \<and>
                terminal_groups (snd r) = terminal_groups ?p" by blast
  have "\<forall>r \<in> set rs. fst r =
         (has_ended (snd r) A \<and> has_ended (snd r) B \<or> has_ended (snd r) A \<and> has_ended (snd r) C)"
  proof
    fix r assume "r \<in> set rs"
    with all have "fst r = terminal_by_groups (snd r)"
      and "terminal_groups (snd r) = [(''g1'', [A, B]), (''default'', [A, C])]"
      by (simp_all add: terminal_groups_three_tasks_purpose)
    then show "fst r =
         (has_ended (snd r) A \<and> has_ended (snd r) B \<or> has_ended (snd r) A \<and> has_ended (snd r) C)"
      by (simp add: terminal_by_groups_def)
  qed
  with rs show "\<exists>rs. is_terminal_calls tit ?p states = Inr rs \<and>
      length rs = length states \<and>
      (\<forall>r \<in> set rs. fst r =
         (has_ended (snd r) A \<and> has_ended (snd r) B \<or> has_ended (snd r) A \<and> has_ended (snd r) C))"
    by blast
qed

theorem is_terminal_iff_some_group_ended_witness:
  "wf_Purpose (example_purpose) \<and>
   (\<exists>rs. is_terminal_calls position_task (example_purpose) [((), 0, ()), ((), 1, ())] = Inr rs \<and>
      length rs = length [((), 0::nat, ()), ((), 1, ())] \<and>
      (\<forall>r \<in> set rs. fst r = terminal_by_groups (snd r))) \<and>
   map_sum id (map fst) (is_terminal_calls position_task (example_purpose) [((), 0, ()), ((), 1, ())]) =
     Inr [False, True]"
proof -
  have wf: "wf_Purpose (example_purpose)"
    by (simp add: example_purpose_def position_task_def three_tasks_purpose_def add_task_with_def empty_Purpose_def add_to_group_def wf_Purpose_def)
  have run: "map_sum id (map fst) (is_terminal_calls position_task (example_purpose) [((), 0, ()), ((), 1, ())]) =
     Inr [False, True]"
    by (simp add: example_purpose_def position_task_def three_tasks_purpose_def add_task_with_def empty_Purpose_def add_to_group_def is_terminal_def)
  from is_terminal_iff_some_group_ended [THEN conjunct1, rule_format, OF wf] wf run
  show ?thesis by blast
qed

text \<open>
  C9. Once \<open>is_terminal\<close> has returned true on a well-formed Purpose, every later call
  returns true, whatever the states passed and whatever the tasks' predicates say on them.
\<close>

theorem terminal_stays_terminal:
  assumes "wf_Purpose p" and "is_terminal tit p a b c = Inr (True, p')"
  shows "\<exists>rs. is_terminal_calls tit' p' states = Inr rs \<and> length rs = length states \<and>
           (\<forall>r \<in> set rs. fst r)"
proof -
  from is_terminal_step [OF assms(1), of tit a b c] assms(2)
  have wf': "wf_Purpose p'" and t: "terminal_by_groups p'" by auto
  from t obtain group where group: "group \<in> set (terminal_groups p')"
    "\<forall>task \<in> set (snd group). has_ended p' task"
    by (auto simp: terminal_by_groups_def)
  from is_terminal_calls_steps [OF wf', of tit' states] obtain rs
    where rs: "is_terminal_calls tit' p' states = Inr rs" "length rs = length states"
      and all: "\<forall>r \<in> set rs. fst r = terminal_by_groups (snd r) \<and>
                terminal_groups (snd r) = terminal_groups p' \<and>
                (\<forall>t. has_ended p' t \<longrightarrow> has_ended (snd r) t)" by blast
  have "\<forall>r \<in> set rs. fst r"
  proof
    fix r assume "r \<in> set rs"
    with all group have "group \<in> set (terminal_groups (snd r))"
      "\<forall>task \<in> set (snd group). has_ended (snd r) task" "fst r = terminal_by_groups (snd r)"
      by auto
    then show "fst r" by (auto simp: terminal_by_groups_def)
  qed
  with rs show ?thesis by blast
qed

theorem terminal_stays_terminal_witness:
  "wf_Purpose (example_purpose\<lparr>task_has_ended := [(0, True), (1, False), (2, False)]\<rparr>) \<and>
   is_terminal position_task (example_purpose\<lparr>task_has_ended := [(0, True), (1, False), (2, False)]\<rparr>) () 1 () = Inr (True, example_purpose\<lparr>task_has_ended := [(0, True), (1, True), (2, False)]\<rparr>) \<and>
   (\<exists>rs. is_terminal_calls position_task (example_purpose\<lparr>task_has_ended := [(0, True), (1, True), (2, False)]\<rparr>) [((), 5, ()), ((), 7, ())] = Inr rs \<and>
      length rs = length [((), 5::nat, ()), ((), 7, ())] \<and>
      (\<forall>r \<in> set rs. fst r))"
proof -
  have wf: "wf_Purpose (example_purpose\<lparr>task_has_ended := [(0, True), (1, False), (2, False)]\<rparr>)"
    by (simp add: example_purpose_def position_task_def three_tasks_purpose_def add_task_with_def empty_Purpose_def add_to_group_def wf_Purpose_def)
  have step: "is_terminal position_task (example_purpose\<lparr>task_has_ended := [(0, True), (1, False), (2, False)]\<rparr>) () 1 () = Inr (True, example_purpose\<lparr>task_has_ended := [(0, True), (1, True), (2, False)]\<rparr>)"
    by (simp add: example_purpose_def position_task_def three_tasks_purpose_def add_task_with_def empty_Purpose_def add_to_group_def is_terminal_def)
  from terminal_stays_terminal [OF wf step] wf step
  show ?thesis by blast
qed

text \<open>
  C10. A Purpose with no task: \<open>reward\<close> is the timestep reward and \<open>is_terminal\<close>
  returns false, on every state and whatever the other fields hold.
\<close>

theorem no_tasks_no_reward_no_end:
  assumes "tasks p = []"
  shows "reward tr p a b c = timestep_reward p \<and> is_terminal tit p a b c = Inr (False, p)"
  using assms by (simp add: reward_def is_terminal_def)

theorem no_tasks_no_reward_no_end_witness:
  "tasks (empty_Purpose (- 1) (ShapingMember NONE) 1 :: (nat, int) Purpose) = [] \<and>
   reward (\<lambda>t (a::unit) (pos::nat) (c::unit). 5) (empty_Purpose (- 1) (ShapingMember NONE) 1 :: (nat, int) Purpose) () 0 () = - 1 \<and>
   is_terminal position_task (empty_Purpose (- 1) (ShapingMember NONE) 1 :: (nat, int) Purpose) () 0 () = Inr (False, (empty_Purpose (- 1) (ShapingMember NONE) 1 :: (nat, int) Purpose))"
proof -
  have none: "tasks (empty_Purpose (- 1) (ShapingMember NONE) 1 :: (nat, int) Purpose) = []"
    by (simp add: empty_Purpose_def)
  from no_tasks_no_reward_no_end [OF none] none
  show ?thesis by (simp add: empty_Purpose_def)
qed

lemma reward_add_task_with:
  "reward tr (add_task_with p t m g) a b c = reward tr p a b c + tr t a b c"
  by (simp add: reward_def add_task_with_def)

lemma terminal_groups_add_optional:
  "groups_of_arg g = [] \<Longrightarrow> terminal_groups (add_task_with p t m g) = terminal_groups p"
  by (simp add: add_task_with_def)

lemma optional_calls_agree:
  assumes "wf_Purpose p" and "wf_Purpose q"
    and "tasks q = tasks p" and "terminal_groups q = terminal_groups p"
    and "\<forall>x. x \<noteq> t \<longrightarrow> has_ended q x = has_ended p x"
    and "\<not> in_terminal_group p t"
  shows "\<exists>rs rs'. is_terminal_calls tit p states = Inr rs \<and>
           is_terminal_calls (\<lambda>x a b c. x \<noteq> t \<and> tit x a b c) q states = Inr rs' \<and>
           map fst rs = map fst rs'"
  using assms
proof (induction states arbitrary: p q)
  case Nil
  show ?case by simp
next
  case (Cons s states)
  let ?tit' = "\<lambda>x a b c. x \<noteq> t \<and> tit x a b c"
  obtain a b c where s: "s = (a, b, c)" by (cases s)
  from is_terminal_step [OF Cons.prems(1), of tit a b c] obtain p'
    where p': "is_terminal tit p a b c = Inr (terminal_by_groups p', p')" "wf_Purpose p'"
      "tasks p' = tasks p" "terminal_groups p' = terminal_groups p"
      "\<forall>x. has_ended p' x = (has_ended p x \<or> (x \<in> set (tasks p) \<and> tit x a b c))"
    by blast
  from is_terminal_step [OF Cons.prems(2), of ?tit' a b c] obtain q'
    where q': "is_terminal ?tit' q a b c = Inr (terminal_by_groups q', q')" "wf_Purpose q'"
      "tasks q' = tasks q" "terminal_groups q' = terminal_groups q"
      "\<forall>x. has_ended q' x = (has_ended q x \<or> (x \<in> set (tasks q) \<and> x \<noteq> t \<and> tit x a b c))"
    by blast
  have agree: "\<forall>x. x \<noteq> t \<longrightarrow> has_ended q' x = has_ended p' x"
    using p'(5) q'(5) Cons.prems(3,5) by simp
  have notin: "\<not> in_terminal_group p' t"
    using Cons.prems(6) p'(4) by (simp add: in_terminal_group_def)
  have same: "terminal_by_groups q' = terminal_by_groups p'"
  proof -
    have "\<forall>group \<in> set (terminal_groups p'). \<forall>x \<in> set (snd group). has_ended q' x = has_ended p' x"
      using agree notin by (auto simp: in_terminal_group_def)
    moreover have "terminal_groups q' = terminal_groups p'"
      using p'(4) q'(4) Cons.prems(4) by simp
    ultimately show ?thesis by (simp add: terminal_by_groups_def)
  qed
  from Cons.IH [OF p'(2) q'(2) _ _ agree notin] p'(3,4) q'(3,4) Cons.prems(3,4)
  obtain rs rs' where rs: "is_terminal_calls tit p' states = Inr rs"
    "is_terminal_calls ?tit' q' states = Inr rs'" "map fst rs = map fst rs'"
    by auto
  from s p'(1) q'(1) rs same show ?case by simp
qed

lemma all_optional_no_groups:
  assumes "wf_Purpose p" and "\<forall>task \<in> set (tasks p). \<not> in_terminal_group p task"
  shows "terminal_groups p = []"
proof (cases "terminal_groups p")
  case Nil
  then show ?thesis .
next
  case (Cons group groups)
  with assms(1) have "snd group \<noteq> []" "set (snd group) \<subseteq> set (tasks p)"
    by (simp_all add: wf_Purpose_def)
  then obtain task where "task \<in> set (snd group)" "task \<in> set (tasks p)"
    by (cases "snd group") auto
  with assms(2) Cons show ?thesis by (auto simp: in_terminal_group_def)
qed

text \<open>
  C5 (amended). \<open>add_task\<close> with \<open>terminal_groups\<close> \<open>None\<close> or the empty string appends
  the task, leaves the terminal groups as they were and adds the task's reward to
  \<open>reward\<close>. When the task was in no terminal group of a well-formed Purpose before the
  call, as every task new to the Purpose is, it is in none after it and is one of the
  \<open>optional_tasks\<close>, and along every sequence of states \<open>is_terminal\<close> answers as it
  does with that task's predicate always false. A Purpose whose tasks are all in no
  terminal group never terminates.
\<close>

theorem optional_task_never_terminates:
  "(add_task p t s g = Inr p' \<and> (g = GroupsNone \<or> g = GroupsStr '''') \<longrightarrow>
      t \<in> set (tasks p') \<and> terminal_groups p' = terminal_groups p \<and>
      reward tr p' a b c = reward tr p a b c + tr t a b c) \<and>
   (add_task p t s g = Inr p' \<and> (g = GroupsNone \<or> g = GroupsStr '''') \<and>
    wf_Purpose p \<and> \<not> in_terminal_group p t \<longrightarrow>
      \<not> in_terminal_group p' t \<and> t \<in> set (optional_tasks p') \<and>
      (\<exists>rs rs'. is_terminal_calls tit p' states = Inr rs \<and>
         is_terminal_calls (\<lambda>x a b c. x \<noteq> t \<and> tit x a b c) p' states = Inr rs' \<and>
         length rs = length states \<and> map fst rs = map fst rs')) \<and>
   (wf_Purpose p \<and> t \<notin> set (tasks p) \<longrightarrow> \<not> in_terminal_group p t) \<and>
   (wf_Purpose p \<and> (\<forall>task \<in> set (tasks p). \<not> in_terminal_group p task) \<longrightarrow>
      (\<exists>rs. is_terminal_calls tit p states = Inr rs \<and> length rs = length states \<and>
         (\<forall>r \<in> set rs. \<not> fst r)))"
proof (intro conjI impI)
  assume a: "add_task p t s g = Inr p' \<and> (g = GroupsNone \<or> g = GroupsStr '''')"
  then obtain m where p': "p' = add_task_with p t m g" and g: "groups_of_arg g = []"
    by (auto simp: add_task_def split: sum.splits)
  from p' show "t \<in> set (tasks p')"
    by (simp add: add_task_with_def)
  from p' g show "terminal_groups p' = terminal_groups p"
    by (simp add: terminal_groups_add_optional)
  from p' show "reward tr p' a b c = reward tr p a b c + tr t a b c"
    by (simp add: reward_add_task_with)
next
  assume a: "add_task p t s g = Inr p' \<and> (g = GroupsNone \<or> g = GroupsStr '''') \<and>
    wf_Purpose p \<and> \<not> in_terminal_group p t"
  then obtain m where p': "p' = add_task_with p t m g" and g: "groups_of_arg g = []"
    by (auto simp: add_task_def split: sum.splits)
  from a have wf: "wf_Purpose p'"
    unfolding p' by (intro wf_add_task_with) simp
  from p' g have groups: "terminal_groups p' = terminal_groups p"
    by (simp add: terminal_groups_add_optional)
  with a have notin: "\<not> in_terminal_group p' t"
    by (simp add: in_terminal_group_def)
  have mem: "t \<in> set (tasks p')"
    by (simp add: p' add_task_with_def)
  from optional_calls_agree [OF wf wf refl refl _ notin, of tit states]
  obtain rs rs' where rs: "is_terminal_calls tit p' states = Inr rs"
    "is_terminal_calls (\<lambda>x a b c. x \<noteq> t \<and> tit x a b c) p' states = Inr rs'"
    "map fst rs = map fst rs'" by auto
  from is_terminal_calls_steps [OF wf, of tit states] rs(1) have "length rs = length states"
    by auto
  with rs have calls: "\<exists>rs rs'. is_terminal_calls tit p' states = Inr rs \<and>
         is_terminal_calls (\<lambda>x a b c. x \<noteq> t \<and> tit x a b c) p' states = Inr rs' \<and>
         length rs = length states \<and> map fst rs = map fst rs'" by blast
  from notin mem have opt: "t \<in> set (optional_tasks p')"
    by (auto simp: optional_tasks_def in_terminal_group_def)
  from notin show "\<not> in_terminal_group p' t" .
  from opt show "t \<in> set (optional_tasks p')" .
  from calls show "\<exists>rs rs'. is_terminal_calls tit p' states = Inr rs \<and>
         is_terminal_calls (\<lambda>x a b c. x \<noteq> t \<and> tit x a b c) p' states = Inr rs' \<and>
         length rs = length states \<and> map fst rs = map fst rs'" .
next
  assume "wf_Purpose p \<and> t \<notin> set (tasks p)"
  then show "\<not> in_terminal_group p t"
    by (auto simp: wf_Purpose_def in_terminal_group_def)
next
  assume a: "wf_Purpose p \<and> (\<forall>task \<in> set (tasks p). \<not> in_terminal_group p task)"
  then have wf: "wf_Purpose p" and none: "terminal_groups p = []"
    by (simp_all add: all_optional_no_groups)
  from is_terminal_calls_steps [OF wf, of tit states] obtain rs
    where rs: "is_terminal_calls tit p states = Inr rs" "length rs = length states"
      and all: "\<forall>r \<in> set rs. fst r = terminal_by_groups (snd r) \<and>
                terminal_groups (snd r) = terminal_groups p" by blast
  from all none have "\<forall>r \<in> set rs. \<not> fst r" by (simp add: terminal_by_groups_def)
  with rs show "\<exists>rs. is_terminal_calls tit p states = Inr rs \<and> length rs = length states \<and>
         (\<forall>r \<in> set rs. \<not> fst r)" by blast
qed

theorem optional_task_never_terminates_witness:
  "add_task example_purpose 3 None (GroupsStr '''') = Inr (add_task_with example_purpose 3 NONE (GroupsStr '''')) \<and>
   wf_Purpose example_purpose \<and> 3 \<notin> set (tasks example_purpose) \<and>
   \<not> in_terminal_group example_purpose 3 \<and>
   3 \<in> set (tasks (add_task_with example_purpose 3 NONE (GroupsStr ''''))) \<and>
   terminal_groups (add_task_with example_purpose 3 NONE (GroupsStr '''')) = terminal_groups example_purpose \<and>
   reward (\<lambda>t (a::unit) (pos::nat) (c::unit). if pos = t then 10 else 0)
     (add_task_with example_purpose 3 NONE (GroupsStr '''')) () 3 () = 10 \<and>
   \<not> in_terminal_group (add_task_with example_purpose 3 NONE (GroupsStr '''')) 3 \<and>
   3 \<in> set (optional_tasks (add_task_with example_purpose 3 NONE (GroupsStr ''''))) \<and>
   (\<exists>rs rs'. is_terminal_calls position_task (add_task_with example_purpose 3 NONE (GroupsStr ''''))
                [((), 3, ()), ((), 0, ()), ((), 1, ())] = Inr rs \<and>
      is_terminal_calls (\<lambda>x a b c. x \<noteq> 3 \<and> position_task x a b c)
        (add_task_with example_purpose 3 NONE (GroupsStr ''''))
        [((), 3, ()), ((), 0, ()), ((), 1, ())] = Inr rs' \<and>
      length rs = length [((), 3::nat, ()), ((), 0, ()), ((), 1, ())] \<and> map fst rs = map fst rs') \<and>
   map_sum id (map (\<lambda>r. (fst r, has_ended (snd r) 3)))
     (is_terminal_calls position_task (add_task_with example_purpose 3 NONE (GroupsStr ''''))
        [((), 3, ()), ((), 0, ()), ((), 1, ())]) =
     Inr [(False, True), (False, True), (True, True)] \<and>
   wf_Purpose (add_task_with (empty_Purpose 0 (ShapingMember NONE) 1) (3::nat) NONE GroupsNone :: (nat, int) Purpose) \<and>
   \<not> list_ex (in_terminal_group (add_task_with (empty_Purpose 0 (ShapingMember NONE) 1) (3::nat) NONE GroupsNone :: (nat, int) Purpose))
        (tasks (add_task_with (empty_Purpose 0 (ShapingMember NONE) 1) (3::nat) NONE GroupsNone :: (nat, int) Purpose)) \<and>
   (\<exists>rs. is_terminal_calls position_task
            (add_task_with (empty_Purpose 0 (ShapingMember NONE) 1) (3::nat) NONE GroupsNone :: (nat, int) Purpose)
            [((), 3, ())] = Inr rs \<and>
      length rs = length [((), 3::nat, ())] \<and> (\<forall>r \<in> set rs. \<not> fst r))"
proof -
  let ?p' = "add_task_with example_purpose 3 NONE (GroupsStr '''')"
  let ?o = "add_task_with (empty_Purpose 0 (ShapingMember NONE) 1) (3::nat) NONE GroupsNone :: (nat, int) Purpose"
  let ?states = "[((), 3::nat, ()), ((), 0, ()), ((), 1, ())]"
  let ?tr = "\<lambda>t (a::unit) (pos::nat) (c::unit). if pos = t then 10 else (0::int)"
  have add: "add_task example_purpose 3 None (GroupsStr '''') = Inr ?p'"
    by (simp add: add_task_def example_purpose_def three_tasks_purpose_def add_task_with_def
        empty_Purpose_def add_to_group_def)
  have wf: "wf_Purpose example_purpose"
    by (simp add: example_purpose_def three_tasks_purpose_def add_task_with_def empty_Purpose_def
        add_to_group_def wf_Purpose_def)
  have new: "3 \<notin> set (tasks example_purpose)"
    by (simp add: example_purpose_def three_tasks_purpose_def add_task_with_def empty_Purpose_def)
  have run: "map_sum id (map (\<lambda>r. (fst r, has_ended (snd r) 3)))
     (is_terminal_calls position_task ?p' ?states) =
     Inr [(False, True), (False, True), (True, True)]"
    by (simp add: example_purpose_def position_task_def three_tasks_purpose_def add_task_with_def
        empty_Purpose_def add_to_group_def is_terminal_def has_ended_def)
  have rew: "reward ?tr example_purpose () 3 () = 0"
    by (simp add: reward_def example_purpose_def three_tasks_purpose_def add_task_with_def
        empty_Purpose_def)
  have wf': "wf_Purpose ?o"
    by (simp add: add_task_with_def empty_Purpose_def wf_Purpose_def)
  have opt: "\<forall>task \<in> set (tasks ?o). \<not> in_terminal_group ?o task"
    by (simp add: add_task_with_def empty_Purpose_def in_terminal_group_def)
  have opt': "\<not> list_ex (in_terminal_group ?o) (tasks ?o)"
    using opt by (simp add: list_ex_iff)
  note notin = optional_task_never_terminates [THEN conjunct2, THEN conjunct2, THEN conjunct1,
      rule_format, OF conjI [OF wf new]]
  note thm1 = optional_task_never_terminates [THEN conjunct1, rule_format,
      OF conjI [OF add disjI2 [OF refl]], of ?tr "()" 3 "()"]
  note thm2 = optional_task_never_terminates [THEN conjunct2, THEN conjunct1, rule_format,
      OF conjI [OF add conjI [OF disjI2 [OF refl] conjI [OF wf notin]]], of position_task ?states]
  note thm3 = optional_task_never_terminates [THEN conjunct2, THEN conjunct2, THEN conjunct2,
      rule_format, OF conjI [OF wf' opt], of position_task "[((), 3, ())]"]
  from thm1 rew have r: "reward ?tr ?p' () 3 () = 10" by simp
  from add wf new notin thm1 r thm2 run wf' opt' thm3 show ?thesis by blast
qed

text \<open>
  C5 as stated fails: task 0 of the example is in the groups \<open>g1\<close> and \<open>default\<close>; added
  again with \<open>terminal_groups\<close> \<open>None\<close> it stays in both, and the answers of
  \<open>is_terminal\<close> on the positions 0 and 1 are not those obtained with the predicate of task
  0 always false.
\<close>

theorem task_added_again_stays_in_group_counterexample:
  "add_task example_purpose 0 None GroupsNone = Inr (add_task_with example_purpose 0 NONE GroupsNone) \<and>
   in_terminal_group (add_task_with example_purpose 0 NONE GroupsNone) 0 \<and>
   map_sum id (map fst)
     (is_terminal_calls position_task (add_task_with example_purpose 0 NONE GroupsNone)
        [((), 0, ()), ((), 1, ())]) = Inr [False, True] \<and>
   map_sum id (map fst)
     (is_terminal_calls (\<lambda>x a b c. x \<noteq> 0 \<and> position_task x a b c)
        (add_task_with example_purpose 0 NONE GroupsNone)
        [((), 0, ()), ((), 1, ())]) = Inr [False, False]"
  by (simp add: example_purpose_def position_task_def three_tasks_purpose_def add_task_with_def
      add_task_def empty_Purpose_def add_to_group_def is_terminal_def in_terminal_group_def)

section \<open>Properties of build\<close>

lemma shape_task_NONE:
  "map_of (reward_shaping p) task = Some NONE \<Longrightarrow> shape_task env p task fresh = Inr (p, fresh)"
  by (simp add: shape_task_def add_reward_shaping_subtasks_def)

lemma build_loop_none_tail:
  "\<forall>t \<in> set (drop i (tasks p)). map_of (reward_shaping p) t = Some NONE \<Longrightarrow>
   build_loop env i p fresh = Inr (p, fresh)"
proof (induction "length (tasks p) - i" arbitrary: i)
  case 0
  then show ?case by (subst build_loop.simps) simp
next
  case (Suc n)
  then have i: "i < length (tasks p)" by simp
  then have "tasks p ! i \<in> set (drop i (tasks p))"
    by (simp add: Cons_nth_drop_Suc [symmetric])
  with Suc.prems have "map_of (reward_shaping p) (tasks p ! i) = Some NONE" by blast
  then have step: "shape_task env p (tasks p ! i) fresh = Inr (p, fresh)"
    by (rule shape_task_NONE)
  from Suc.prems have "\<forall>t \<in> set (drop (Suc i) (tasks p)). map_of (reward_shaping p) t = Some NONE"
    using set_drop_subset_set_drop [of i "Suc i" "tasks p"] by auto
  moreover from Suc.hyps(2) have "n = length (tasks p) - Suc i" by simp
  ultimately have "build_loop env (Suc i) p fresh = Inr (p, fresh)" by (rule Suc.hyps(1) [rotated])
  with i step show ?case by (subst build_loop.simps) simp
qed

lemma build_loop_shape_tasks:
  "tasks p = pre @ todo @ post \<Longrightarrow>
   \<forall>t \<in> set post. map_of (reward_shaping p) t = Some NONE \<Longrightarrow>
   build_loop env (length pre) p fresh = shape_tasks env todo p fresh"
proof (induction todo arbitrary: pre post p fresh)
  case Nil
  then show ?case by (simp add: build_loop_none_tail)
next
  case (Cons task todo)
  from Cons.prems(1) have i: "length pre < length (tasks p)" and nth: "tasks p ! length pre = task"
    by simp_all
  show ?case
  proof (cases "shape_task env p task fresh")
    case (Inl e)
    with i nth show ?thesis by (subst build_loop.simps) simp
  next
    case (Inr r)
    obtain p' fresh' where r: "r = (p', fresh')" by (cases r)
    from Inr r obtain shaping subtasks
      where p': "p' = add_optional p subtasks"
      by (auto elim: shape_task_cases)
    from p' Cons.prems(1) have t: "tasks p' = (pre @ [task]) @ todo @ (post @ subtasks)"
      by (simp add: fold_add_optional_fields)
    from p' Cons.prems(2)
    have "\<forall>t \<in> set (post @ subtasks). map_of (reward_shaping p') t = Some NONE"
      by (auto simp: fold_add_optional_shaping)
    from Cons.IH [OF t this, of fresh']
    have "build_loop env (Suc (length pre)) p' fresh' = shape_tasks env todo p' fresh'" by simp
    with i nth Inr r show ?thesis by (subst build_loop.simps) simp
  qed
qed

lemma build_shape_tasks: "build env p fresh = shape_tasks env (tasks p) p fresh"
  using build_loop_shape_tasks [of p "[]" "tasks p" "[]" env fresh]
  by (cases "tasks p") (simp_all add: build_def)

lemma build_reward_shaping_subtasks_kinds:
  "build_reward_shaping_subtasks a b c r fresh =
     (enumerate fresh (reward_shaping_kinds a b c r), fresh + length (reward_shaping_kinds a b c r))"
  by (simp add: build_reward_shaping_subtasks_def reward_shaping_kinds_def Let_def)

lemma add_reward_shaping_subtasks_fresh:
  "add_reward_shaping_subtasks p task env shaping fresh =
     (case add_reward_shaping_subtasks p task env shaping 0 of
        Inl e \<Rightarrow> Inl e
      | Inr (subtasks, n) \<Rightarrow> Inr (enumerate fresh (map snd subtasks), fresh + length subtasks))"
proof (cases shaping)
  case NONE
  then show ?thesis by (simp add: add_reward_shaping_subtasks_def)
next
  case ALL_ACHIVEMENTS
  then show ?thesis
    by (simp add: add_reward_shaping_subtasks_def all_subtasks_def
        build_reward_shaping_subtasks_kinds)
next
  case REQUIRED_ACHIVEMENTS
  then show ?thesis
    by (simp add: add_reward_shaping_subtasks_def required_subtasks_def
        build_reward_shaping_subtasks_kinds split: prod.splits sum.splits)
next
  case INPUTS_ACHIVEMENT
  then show ?thesis
    by (simp add: add_reward_shaping_subtasks_def inputs_subtasks_def Let_def
        build_reward_shaping_subtasks_kinds split: prod.splits sum.splits)
qed

lemma shape_task_kinds:
  "shape_task env p task fresh =
     (case subtask_kinds env p task of
        Inl e \<Rightarrow> Inl e
      | Inr kinds \<Rightarrow> Inr (add_optional p (enumerate fresh kinds), fresh + length kinds))"
  unfolding shape_task_def subtask_kinds_def
  by (subst add_reward_shaping_subtasks_fresh)
     (simp add: add_subtasks_fold split: option.splits sum.splits prod.splits)

lemma add_reward_shaping_subtasks_cong:
  "shaping_value p' = shaping_value p \<Longrightarrow>
   add_reward_shaping_subtasks p' task env shaping fresh =
   add_reward_shaping_subtasks p task env shaping fresh"
  by (cases shaping) (simp_all add: add_reward_shaping_subtasks_def)

lemma subtask_kinds_cong:
  assumes "map_of (reward_shaping p') task = map_of (reward_shaping p) task"
    and "shaping_value p' = shaping_value p"
  shows "subtask_kinds env p' task = subtask_kinds env p task"
proof (cases "map_of (reward_shaping p) task")
  case None
  with assms(1) show ?thesis by (simp add: subtask_kinds_def)
next
  case (Some shaping)
  with assms(1) show ?thesis
    by (simp add: subtask_kinds_def add_reward_shaping_subtasks_cong [OF assms(2)])
qed

lemma all_subtask_kinds_cong:
  assumes "\<forall>t \<in> set ts. map_of (reward_shaping p') t = map_of (reward_shaping p) t"
    and "shaping_value p' = shaping_value p"
  shows "all_subtask_kinds env p' ts = all_subtask_kinds env p ts"
  using assms(1)
proof (induction ts)
  case Nil
  show ?case by simp
next
  case (Cons task ts)
  from Cons.prems have "subtask_kinds env p' task = subtask_kinds env p task"
    by (intro subtask_kinds_cong assms(2)) simp
  moreover from Cons have "all_subtask_kinds env p' ts = all_subtask_kinds env p ts"
    by simp
  ultimately show ?case by (simp split: sum.splits)
qed

lemma fresh_not_enumerated: "fst t < fresh \<Longrightarrow> t \<notin> set (enumerate fresh kinds)"
  by (auto simp: in_set_enumerate_eq)

lemma shape_tasks_kinds:
  "\<forall>t \<in> set ts. fst t < fresh \<Longrightarrow>
   shape_tasks env ts p fresh =
     (case all_subtask_kinds env p ts of
        Inl e \<Rightarrow> Inl e
      | Inr kinds \<Rightarrow> Inr (add_optional p (enumerate fresh kinds), fresh + length kinds))"
proof (induction ts arbitrary: p fresh)
  case Nil
  show ?case by (simp add: add_optional_simps)
next
  case (Cons task ts)
  show ?case
  proof (cases "subtask_kinds env p task")
    case (Inl e)
    then show ?thesis by (simp add: shape_task_kinds)
  next
    case (Inr kinds)
    let ?p' = "add_optional p (enumerate fresh kinds)"
    let ?fresh' = "fresh + length kinds"
    from Cons.prems have below: "\<forall>t \<in> set ts. fst t < ?fresh'" by auto
    have "\<forall>t \<in> set ts. map_of (reward_shaping ?p') t = map_of (reward_shaping p) t"
      using Cons.prems by (auto simp: fold_add_optional_shaping dest: fresh_not_enumerated)
    then have same: "all_subtask_kinds env ?p' ts = all_subtask_kinds env p ts"
      by (rule all_subtask_kinds_cong) (simp_all add: fold_add_optional_fields)
    have "shape_tasks env (task # ts) p fresh = shape_tasks env ts ?p' ?fresh'"
      using Inr by (simp add: shape_task_kinds)
    also have "\<dots> = (case all_subtask_kinds env p ts of
        Inl e \<Rightarrow> Inl e
      | Inr others \<Rightarrow> Inr (add_optional ?p' (enumerate ?fresh' others), ?fresh' + length others))"
      unfolding Cons.IH [OF below] same ..
    also have "\<dots> = (case all_subtask_kinds env p (task # ts) of
        Inl e \<Rightarrow> Inl e
      | Inr all_kinds \<Rightarrow> Inr (add_optional p (enumerate fresh all_kinds), fresh + length all_kinds))"
      using Inr
      by (cases "all_subtask_kinds env p ts")
         (simp_all add: add_optional_simps enumerate_append_eq add.assoc)
    finally show ?thesis .
  qed
qed

lemma all_subtask_kinds_append:
  "all_subtask_kinds env p (xs @ ys) =
     (case all_subtask_kinds env p xs of
        Inl e \<Rightarrow> Inl e
      | Inr kinds \<Rightarrow>
          (case all_subtask_kinds env p ys of
             Inl e \<Rightarrow> Inl e
           | Inr others \<Rightarrow> Inr (kinds @ others)))"
  by (induction xs) (simp_all split: sum.splits)

lemma all_subtask_kinds_NONE:
  "\<forall>t \<in> set ts. map_of (reward_shaping p) t = Some NONE \<Longrightarrow> all_subtask_kinds env p ts = Inr []"
  by (induction ts) (simp_all add: subtask_kinds_def add_reward_shaping_subtasks_def)

lemma enumerate_ids: "t \<in> set (enumerate fresh kinds) \<Longrightarrow> fresh \<le> fst t \<and> fst t < fresh + length kinds"
  by (auto simp: in_set_enumerate_eq)

lemma build_closed_form:
  assumes "ids_below fresh p"
  shows "build env p fresh =
     (case all_subtask_kinds env p (tasks p) of
        Inl e \<Rightarrow> Inl e
      | Inr kinds \<Rightarrow> Inr (add_optional p (enumerate fresh kinds), fresh + length kinds))"
  using assms by (simp add: build_shape_tasks shape_tasks_kinds ids_below_def)

lemma build_result:
  assumes "ids_below fresh p" and "build env p fresh = Inr (p', fresh')"
  obtains kinds where "all_subtask_kinds env p (tasks p) = Inr kinds"
    and "p' = add_optional p (enumerate fresh kinds)" and "fresh' = fresh + length kinds"
  using assms(2) unfolding build_closed_form [OF assms(1)]
  by (cases "all_subtask_kinds env p (tasks p)") auto

lemma subtasks_in_no_group:
  assumes "wf_Purpose p" and "ids_below fresh p" and "s \<in> set (enumerate fresh kinds)"
  shows "\<not> in_terminal_group (add_optional p (enumerate fresh kinds)) s"
proof
  assume "in_terminal_group (add_optional p (enumerate fresh kinds)) s"
  then obtain group where "group \<in> set (terminal_groups p)" "s \<in> set (snd group)"
    by (auto simp: in_terminal_group_def fold_add_optional_fields)
  with assms(1) have "s \<in> set (tasks p)" by (auto simp: wf_Purpose_def)
  with assms(2) have "fst s < fresh" by (simp add: ids_below_def)
  with enumerate_ids [OF assms(3)] show False by simp
qed

text \<open>
  C6. When \<open>build\<close> returns, the tasks it has appended are the subtasks synthesized for the
  tasks the Purpose had before the call, all computed from that Purpose (a subtask added by
  \<open>build\<close> synthesizes nothing); each is recorded with shaping \<open>NONE\<close> and is a member of
  no terminal group, and the terminal groups are those of before the call.
\<close>

theorem build_subtasks_are_optional:
  assumes "wf_Purpose p" and "ids_below fresh p" and "build env p fresh = Inr (p', fresh')"
  shows "\<exists>kinds. all_subtask_kinds env p (tasks p) = Inr kinds \<and>
           tasks p' = tasks p @ enumerate fresh kinds \<and>
           terminal_groups p' = terminal_groups p \<and>
           (\<forall>s \<in> set (enumerate fresh kinds).
              map_of (reward_shaping p') s = Some NONE \<and> \<not> in_terminal_group p' s)"
proof -
  from assms(2,3) obtain kinds where kinds: "all_subtask_kinds env p (tasks p) = Inr kinds"
    and p': "p' = add_optional p (enumerate fresh kinds)"
    by (rule build_result)
  have "\<forall>s \<in> set (enumerate fresh kinds).
      map_of (reward_shaping p') s = Some NONE \<and> \<not> in_terminal_group p' s"
    using subtasks_in_no_group [OF assms(1,2)]
    by (simp add: p' fold_add_optional_shaping)
  with kinds show ?thesis
    by (simp add: p' fold_add_optional_fields)
qed

lemma wf_add_optional: "wf_Purpose p \<Longrightarrow> wf_Purpose (add_optional p subtasks)"
  by (induction subtasks arbitrary: p) (simp_all add: add_optional_simps wf_add_task_with)

lemma wf_shape_tasks:
  "wf_Purpose p \<Longrightarrow> shape_tasks env ts p fresh = Inr (p', fresh') \<Longrightarrow> wf_Purpose p'"
proof (induction ts arbitrary: p fresh)
  case Nil
  then show ?case by simp
next
  case (Cons task ts)
  from Cons.prems(2) obtain q f where step: "shape_task env p task fresh = Inr (q, f)"
    and rest: "shape_tasks env ts q f = Inr (p', fresh')"
    by (auto split: sum.splits)
  from step Cons.prems(1) have "wf_Purpose q"
    by (auto elim!: shape_task_cases simp: wf_add_optional)
  from Cons.IH [OF this rest] show ?case .
qed

lemma wf_build: "wf_Purpose p \<Longrightarrow> build env p fresh = Inr (p', fresh') \<Longrightarrow> wf_Purpose p'"
  unfolding build_shape_tasks by (rule wf_shape_tasks)

lemma ids_below_add_optional:
  "ids_below fresh p \<Longrightarrow> ids_below (fresh + length kinds) (add_optional p (enumerate fresh kinds))"
  by (auto simp: ids_below_def fold_add_optional_fields dest: enumerate_ids)

text \<open>
  C4 (amended). Once a call of \<open>is_terminal\<close> has left the flag of a task set, every later
  call of \<open>is_terminal\<close> returns and leaves it set, whatever the tasks' predicates
  (\<open>tit'\<close>) say on the later states: \<open>is_terminal\<close> only ever writes \<open>True\<close>, and
  \<open>reward\<close> writes nothing. \<open>add_task\<close> leaves the flags of the other tasks as they are
  and sets the flag of the task it adds to \<open>False\<close>, also when that task is already in the
  Purpose. \<open>build\<close> adds new task objects only, so it leaves the flags of the tasks of the
  Purpose as they are.
\<close>

theorem ended_flag_reset_only_by_add_task:
  "(wf_Purpose p \<and> is_terminal tit p a b c = Inr (r, p') \<and> has_ended p' t \<longrightarrow>
      (\<exists>rs. is_terminal_calls tit' p' states = Inr rs \<and> length rs = length states \<and>
         (\<forall>r \<in> set rs. has_ended (snd r) t))) \<and>
   (add_task p added s g = Inr q \<longrightarrow> has_ended q t = (t \<noteq> added \<and> has_ended p t)) \<and>
   (ids_below fresh before \<and> build env before fresh = Inr (built, fresh') \<and>
    task \<in> set (tasks before) \<longrightarrow>
      has_ended built task = has_ended before task)"
proof (intro conjI impI)
  assume a: "wf_Purpose p \<and> is_terminal tit p a b c = Inr (r, p') \<and> has_ended p' t"
  with is_terminal_step [of p tit a b c] have "wf_Purpose p'" by auto
  from is_terminal_calls_steps [OF this, of tit' states] a
  show "\<exists>rs. is_terminal_calls tit' p' states = Inr rs \<and> length rs = length states \<and>
         (\<forall>r \<in> set rs. has_ended (snd r) t)" by blast
next
  assume "add_task p added s g = Inr q"
  then obtain m where "q = add_task_with p added m g"
    by (auto simp: add_task_def split: sum.splits)
  then show "has_ended q t = (t \<noteq> added \<and> has_ended p t)"
    by (auto simp: has_ended_def add_task_with_def update_conv')
next
  assume a: "ids_below fresh before \<and> build env before fresh = Inr (built, fresh') \<and>
    task \<in> set (tasks before)"
  then have below: "ids_below fresh before" and bld: "build env before fresh = Inr (built, fresh')"
    and task: "task \<in> set (tasks before)" by simp_all
  from below bld obtain kinds where built: "built = add_optional before (enumerate fresh kinds)"
    by (rule build_result)
  from below task have "task \<notin> set (enumerate fresh kinds)"
    by (intro fresh_not_enumerated) (simp add: ids_below_def)
  then show "has_ended built task = has_ended before task"
    by (simp add: has_ended_def built fold_add_optional_ended)
qed

text \<open>
  C4 as stated fails: task 0 has ended after a call of \<open>is_terminal\<close>; adding task 0
  again sets its flag back to \<open>False\<close>, and the next call of \<open>is_terminal\<close>, on a state
  where the predicate of task 0 is false, leaves it so.
\<close>

theorem add_task_resets_ended_flag_counterexample:
  "is_terminal position_task example_purpose () 0 () =
     Inr (False, example_purpose\<lparr>task_has_ended := [(0, True), (1, False), (2, False)]\<rparr>) \<and>
   has_ended (example_purpose\<lparr>task_has_ended := [(0, True), (1, False), (2, False)]\<rparr>) 0 \<and>
   add_task (example_purpose\<lparr>task_has_ended := [(0, True), (1, False), (2, False)]\<rparr>) 0 None GroupsNone =
     Inr (add_task_with (example_purpose\<lparr>task_has_ended := [(0, True), (1, False), (2, False)]\<rparr>) 0 NONE GroupsNone) \<and>
   \<not> has_ended (add_task_with (example_purpose\<lparr>task_has_ended := [(0, True), (1, False), (2, False)]\<rparr>) 0 NONE GroupsNone) 0 \<and>
   map_sum id (map (\<lambda>r. has_ended (snd r) 0))
     (is_terminal_calls position_task
        (add_task_with (example_purpose\<lparr>task_has_ended := [(0, True), (1, False), (2, False)]\<rparr>) 0 NONE GroupsNone)
        [((), 5, ())]) = Inr [False]"
  by (simp add: example_purpose_def position_task_def three_tasks_purpose_def add_task_with_def
      add_task_def empty_Purpose_def add_to_group_def is_terminal_def has_ended_def)

text \<open>
  C7 (amended). A second \<open>build\<close> on the result of the first returns, leaves the terminal
  groups and the shaping of the tasks already there unchanged and keeps the task list as a
  prefix, but it appends the subtasks of the first call once more, as new objects: the
  Purpose is unchanged exactly when the first call synthesized no subtask.
\<close>

theorem build_twice:
  assumes "ids_below fresh p" and "build env p fresh = Inr (p1, f1)"
  shows "\<exists>kinds p2. all_subtask_kinds env p (tasks p) = Inr kinds \<and>
           tasks p1 = tasks p @ enumerate fresh kinds \<and>
           build env p1 f1 = Inr (p2, f1 + length kinds) \<and>
           tasks p2 = tasks p1 @ enumerate f1 kinds \<and>
           terminal_groups p2 = terminal_groups p1 \<and>
           (\<forall>t \<in> set (tasks p1). map_of (reward_shaping p2) t = map_of (reward_shaping p1) t) \<and>
           (p2 = p1 \<longleftrightarrow> kinds = [])"
proof -
  from assms obtain kinds where kinds: "all_subtask_kinds env p (tasks p) = Inr kinds"
    and p1: "p1 = add_optional p (enumerate fresh kinds)" and f1: "f1 = fresh + length kinds"
    by (rule build_result)
  have below: "ids_below f1 p1"
    unfolding p1 f1 using assms(1) by (rule ids_below_add_optional)
  have t1: "tasks p1 = tasks p @ enumerate fresh kinds"
    by (simp add: p1 fold_add_optional_fields)
  have "\<forall>t \<in> set (tasks p). map_of (reward_shaping p1) t = map_of (reward_shaping p) t"
  proof
    fix t assume "t \<in> set (tasks p)"
    with assms(1) have "t \<notin> set (enumerate fresh kinds)"
      by (intro fresh_not_enumerated) (simp add: ids_below_def)
    then show "map_of (reward_shaping p1) t = map_of (reward_shaping p) t"
      by (simp add: p1 fold_add_optional_shaping)
  qed
  then have "all_subtask_kinds env p1 (tasks p) = all_subtask_kinds env p (tasks p)"
    by (rule all_subtask_kinds_cong) (simp add: p1 fold_add_optional_fields)
  moreover have "all_subtask_kinds env p1 (enumerate fresh kinds) = Inr []"
    by (rule all_subtask_kinds_NONE) (simp add: p1 fold_add_optional_shaping)
  ultimately have again: "all_subtask_kinds env p1 (tasks p1) = Inr kinds"
    by (simp add: t1 all_subtask_kinds_append kinds)
  let ?p2 = "add_optional p1 (enumerate f1 kinds)"
  have b2: "build env p1 f1 = Inr (?p2, f1 + length kinds)"
    by (simp add: build_closed_form [OF below] again)
  have same: "\<forall>t \<in> set (tasks p1). map_of (reward_shaping ?p2) t = map_of (reward_shaping p1) t"
  proof
    fix t assume "t \<in> set (tasks p1)"
    with below have "t \<notin> set (enumerate f1 kinds)"
      by (intro fresh_not_enumerated) (simp add: ids_below_def)
    then show "map_of (reward_shaping ?p2) t = map_of (reward_shaping p1) t"
      by (simp add: fold_add_optional_shaping)
  qed
  have iff: "?p2 = p1 \<longleftrightarrow> kinds = []"
  proof
    assume "?p2 = p1"
    then have "length (tasks ?p2) = length (tasks p1)" by simp
    then show "kinds = []" by (simp add: fold_add_optional_fields)
  next
    assume "kinds = []"
    then show "?p2 = p1" by (simp add: add_optional_simps)
  qed
  from kinds t1 b2 same iff show ?thesis
    by (intro exI [of _ kinds] exI [of _ ?p2]) (simp add: fold_add_optional_fields)
qed

lemma reward_shaping_kinds_supported: "k \<in> set (reward_shaping_kinds a b c r) \<Longrightarrow> k \<noteq> OtherTask"
  by (auto simp: reward_shaping_kinds_def)

lemma built_subtasks_supported:
  assumes "build_reward_shaping_subtasks a b c r fresh = (subtasks, fresh')" and "s \<in> set subtasks"
  shows "snd s \<noteq> OtherTask"
proof -
  from assms(1) have "map snd subtasks = reward_shaping_kinds a b c r"
    by (auto simp: build_reward_shaping_subtasks_kinds)
  moreover from assms(2) have "snd s \<in> set (map snd subtasks)" by simp
  ultimately show ?thesis by (simp add: reward_shaping_kinds_supported)
qed

lemma subtasks_supported:
  assumes "add_reward_shaping_subtasks p task env shaping fresh = Inr (subtasks, fresh')"
    and "s \<in> set subtasks"
  shows "snd s \<noteq> OtherTask"
proof (cases shaping)
  case NONE
  with assms show ?thesis by (simp add: add_reward_shaping_subtasks_def)
next
  case ALL_ACHIVEMENTS
  with assms show ?thesis
    by (auto simp: add_reward_shaping_subtasks_def all_subtasks_def
        dest: built_subtasks_supported)
next
  case REQUIRED_ACHIVEMENTS
  with assms show ?thesis
    by (auto simp: add_reward_shaping_subtasks_def required_subtasks_def
        split: sum.splits prod.splits dest: built_subtasks_supported)
next
  case INPUTS_ACHIVEMENT
  with assms show ?thesis
    by (auto simp: add_reward_shaping_subtasks_def inputs_subtasks_def Let_def
        split: sum.splits prod.splits dest: built_subtasks_supported)
qed

lemma unsupported_raises:
  "snd task = OtherTask \<Longrightarrow> required_subtasks task env v fresh = Inl NotImplementedError"
  "snd task = OtherTask \<Longrightarrow> inputs_subtasks task env v fresh = Inl NotImplementedError"
  by (simp_all add: required_subtasks_def inputs_subtasks_def)

lemma shape_tasks_unsupported:
  assumes "snd task = OtherTask"
  shows "task \<in> set ts \<Longrightarrow>
    map_of (reward_shaping p) task = Some REQUIRED_ACHIVEMENTS \<or>
    map_of (reward_shaping p) task = Some INPUTS_ACHIVEMENT \<Longrightarrow>
    \<exists>e. shape_tasks env ts p fresh = Inl e"
proof (induction ts arbitrary: p fresh)
  case Nil
  then show ?case by simp
next
  case (Cons x ts)
  show ?case
  proof (cases "shape_task env p x fresh")
    case (Inl e)
    then show ?thesis by simp
  next
    case (Inr r)
    obtain p' fresh' where r: "r = (p', fresh')" by (cases r)
    from Inr r obtain shaping subtasks
      where sh: "map_of (reward_shaping p) x = Some shaping"
        and sub: "add_reward_shaping_subtasks p x env shaping fresh = Inr (subtasks, fresh')"
        and p': "p' = add_optional p subtasks"
      by (auto elim: shape_task_cases)
    have "x \<noteq> task"
    proof
      assume "x = task"
      with sh sub Cons.prems(2) assms show False
        by (auto simp: add_reward_shaping_subtasks_def unsupported_raises)
    qed
    with Cons.prems(1) have mem: "task \<in> set ts" by simp
    from subtasks_supported [OF sub, of task] assms have "task \<notin> set subtasks" by blast
    with Cons.prems(2) have "map_of (reward_shaping p') task = Some REQUIRED_ACHIVEMENTS \<or>
        map_of (reward_shaping p') task = Some INPUTS_ACHIVEMENT"
      by (simp add: p' fold_add_optional_shaping)
    from Cons.IH [OF mem this, of fresh'] Inr r show ?thesis by simp
  qed
qed

text \<open>
  C8. A task of none of the three supported classes whose shaping is REQUIRED or INPUTS makes
  \<open>build\<close> raise, and both strategies raise \<open>NotImplementedError\<close> on it.
\<close>

theorem unsupported_task_raises:
  assumes "task \<in> set (tasks p)" and "snd task = OtherTask"
    and "map_of (reward_shaping p) task = Some REQUIRED_ACHIVEMENTS \<or>
         map_of (reward_shaping p) task = Some INPUTS_ACHIVEMENT"
  shows "(\<exists>e. build env p fresh = Inl e) \<and>
         required_subtasks task env v fresh = Inl NotImplementedError \<and>
         inputs_subtasks task env v fresh = Inl NotImplementedError"
  using shape_tasks_unsupported [OF assms(2,1,3), of env fresh] assms(2)
  by (simp add: build_shape_tasks unsupported_raises)

lemmas scenario_defs = scenario_env_def scenario_world_def search_0_def craft_1_def craft_2_def
  item0_def item1_def item2_def zone_Z_def get_item_2_def scenario_purpose_def

lemma fold_add_transformation_inputs:
  "fold add_transformation_inputs transfos (a, b, c) = (a', b', c') \<Longrightarrow>
   set a' = set a \<union> (\<Union>t \<in> set transfos. set (consumed_items t)) \<and>
   set b' = set b \<union> (\<Union>t \<in> set transfos. case zones t of None \<Rightarrow> {} | Some zs \<Rightarrow> set zs) \<and>
   set c' = set c \<union> (\<Union>t \<in> set transfos. set (consumed_zones_items t)) \<and>
   (distinct a \<longrightarrow> distinct a') \<and> (distinct b \<longrightarrow> distinct b') \<and> (distinct c \<longrightarrow> distinct c')"
proof (induction transfos arbitrary: a b c)
  case Nil
  then show ?case by simp
next
  case (Cons t transfos)
  obtain a1 b1 c1 where step: "add_transformation_inputs t (a, b, c) = (a1, b1, c1)"
    by (cases "add_transformation_inputs t (a, b, c)")
  then have 1: "set a1 = set a \<union> set (consumed_items t)"
    "set b1 = set b \<union> (case zones t of None \<Rightarrow> {} | Some zs \<Rightarrow> set zs)"
    "set c1 = set c \<union> set (consumed_zones_items t)"
    "distinct a \<longrightarrow> distinct a1" "distinct b \<longrightarrow> distinct b1" "distinct c \<longrightarrow> distinct c1"
    by (auto simp: add_transformation_inputs_def split: option.splits if_splits)
  from Cons.prems step have "fold add_transformation_inputs transfos (a1, b1, c1) = (a', b', c')"
    by simp
  from Cons.IH [OF this] 1 show ?case by auto
qed

lemma inputs_goal_relevant:
  assumes "inputs_goal goal = Inr (goal_item, goal_zone_item, goal_zones, relevant_zones)"
  shows "(gives goal_item (produced_items t) (consumed_items t) \<or>
          gives goal_zone_item (produced_zones_items t) (consumed_zones_items t) \<or>
          goes_to goal_zones t) = relevant_transformation goal t"
    and "set relevant_zones = set (candidate_zones goal)" and "distinct relevant_zones"
  using assms
  by (cases goal;
      auto simp: gives_def goes_to_def relevant_transformation_def produces_goal_def
        candidate_zones_def split: option.splits if_splits)+

lemma inputs_goal_supported: "goal \<noteq> OtherTask \<Longrightarrow> \<exists>g. inputs_goal goal = Inr g"
  by (cases goal) (auto split: option.splits)

lemma reward_shaping_kinds_set:
  "set (reward_shaping_kinds a b c r) =
     (\<lambda>i. GetItemTask (ItemStack i 1) r) ` set a \<union> (\<lambda>z. GoToZoneTask z r) ` set b \<union>
     (\<lambda>i. PlaceItemTask (ItemStack i 1) None r) ` set c"
  by (auto simp: reward_shaping_kinds_def)

lemma fold_add_transformation_inputs_kinds:
  assumes "fold add_transformation_inputs transfos (a, b, c) = (a', b', c')"
  shows "set (reward_shaping_kinds a' b' c' r) =
           set (reward_shaping_kinds a b c r) \<union> inputs_of (set transfos) r"
  using fold_add_transformation_inputs [OF assms]
  by (auto simp: reward_shaping_kinds_set inputs_of_def)

lemma reward_shaping_kinds_distinct:
  "distinct a \<Longrightarrow> distinct b \<Longrightarrow> distinct c \<Longrightarrow> distinct (reward_shaping_kinds a b c r)"
  by (auto simp: reward_shaping_kinds_def distinct_map inj_on_def)

lemma inputs_subtasks_kinds:
  assumes "snd task \<noteq> OtherTask"
  shows "\<exists>kinds. inputs_subtasks task env r fresh = Inr (enumerate fresh kinds, fresh + length kinds) \<and>
           distinct kinds \<and>
           set kinds =
             inputs_of {t \<in> set (transformations env). relevant_transformation (snd task) t} r \<union>
             (\<lambda>z. GoToZoneTask z r) ` set (candidate_zones (snd task))"
proof -
  from inputs_goal_supported [OF assms] obtain goal_item goal_zone_item goal_zones relevant_zones
    where goal: "inputs_goal (snd task) = Inr (goal_item, goal_zone_item, goal_zones, relevant_zones)"
    by (metis prod_cases4)
  note rel = inputs_goal_relevant [OF goal]
  let ?ts = "filter (\<lambda>t. gives goal_item (produced_items t) (consumed_items t)) (transformations env) @
             filter (\<lambda>t. gives goal_zone_item (produced_zones_items t) (consumed_zones_items t))
               (transformations env) @
             filter (goes_to goal_zones) (transformations env)"
  have ts: "set ?ts = {t \<in> set (transformations env). relevant_transformation (snd task) t}"
    using rel(1) by auto
  obtain a b c where f: "fold add_transformation_inputs ?ts ([], relevant_zones, []) = (a, b, c)"
    by (cases "fold add_transformation_inputs ?ts ([], relevant_zones, [])")
  note sets = fold_add_transformation_inputs [OF f]
  let ?kinds = "reward_shaping_kinds a b c r"
  have 1: "inputs_subtasks task env r fresh = Inr (enumerate fresh ?kinds, fresh + length ?kinds)"
    using goal f by (simp add: inputs_subtasks_def build_reward_shaping_subtasks_kinds)
  have 2: "distinct ?kinds"
    using sets rel(3) by (intro reward_shaping_kinds_distinct) simp_all
  have "set ?kinds = set (reward_shaping_kinds [] relevant_zones [] r) \<union> inputs_of (set ?ts) r"
    using f by (rule fold_add_transformation_inputs_kinds)
  also have "set (reward_shaping_kinds [] relevant_zones [] r) =
      (\<lambda>z. GoToZoneTask z r) ` set (candidate_zones (snd task))"
    by (simp add: reward_shaping_kinds_set rel(2))
  also note ts
  finally have 3: "set ?kinds =
      inputs_of {t \<in> set (transformations env). relevant_transformation (snd task) t} r \<union>
      (\<lambda>z. GoToZoneTask z r) ` set (candidate_zones (snd task))"
    by (simp only: Un_commute)
  from 1 2 3 show ?thesis by blast
qed

lemma scenario_inputs:
  "inputs_subtasks (g, GetItemTask (ItemStack item2 1) r) scenario_env v fresh =
   Inr ([(fresh, GetItemTask (ItemStack item1 1) v), (Suc fresh, GoToZoneTask zone_Z v)], fresh + 2)"
  by (simp add: inputs_subtasks_def scenario_defs gives_def goes_to_def add_transformation_inputs_def
      build_reward_shaping_subtasks_def List.union_def List.insert_def)

lemma scenario_ancestors:
  "ancestors (requirements_graph scenario_env) (ItemNode item2) =
    Inr [ItemNode item0, ItemNode item1, ZoneNode zone_Z]"
  by code_simp

lemma scenario_required:
  "required_subtasks (g, GetItemTask (ItemStack item2 1) r) scenario_env v fresh =
   Inr ([(fresh, GetItemTask (ItemStack item1 1) v), (Suc fresh, GetItemTask (ItemStack item0 1) v),
         (Suc (Suc fresh), GoToZoneTask zone_Z v)], fresh + 3)"
  by (simp add: required_subtasks_def scenario_ancestors build_reward_shaping_subtasks_def
      List.insert_def item0_def item1_def)

lemma scenario_purpose_fields:
  "tasks (scenario_purpose shaping) = [get_item_2]"
  "reward_shaping (scenario_purpose shaping) = [(get_item_2, shaping)]"
  "terminal_groups (scenario_purpose shaping) = [(''default'', [get_item_2])]"
  "shaping_value (scenario_purpose shaping) = 1"
  by (simp_all add: scenario_purpose_def add_task_with_def empty_Purpose_def add_to_group_def)

lemma scenario_build_required:
  "build scenario_env (scenario_purpose REQUIRED_ACHIVEMENTS) 1 =
     Inr (add_optional (scenario_purpose REQUIRED_ACHIVEMENTS)
            [(1, GetItemTask (ItemStack item1 1) 1), (2, GetItemTask (ItemStack item0 1) 1),
             (3, GoToZoneTask zone_Z 1)], 4)"
  by (simp add: build_shape_tasks scenario_purpose_fields shape_task_def
      add_reward_shaping_subtasks_def get_item_2_def scenario_required add_subtasks_fold
      del: One_nat_def)

lemma scenario_build_inputs:
  "build scenario_env (scenario_purpose INPUTS_ACHIVEMENT) 1 =
     Inr (add_optional (scenario_purpose INPUTS_ACHIVEMENT)
            [(1, GetItemTask (ItemStack item1 1) 1), (2, GoToZoneTask zone_Z 1)], 3)"
  by (simp add: build_shape_tasks scenario_purpose_fields shape_task_def
      add_reward_shaping_subtasks_def get_item_2_def scenario_inputs add_subtasks_fold
      del: One_nat_def)

lemma scenario_build_inputs_ended:
  "build scenario_env ((scenario_purpose INPUTS_ACHIVEMENT)\<lparr>task_has_ended := [(get_item_2, True)]\<rparr>) 1 =
     Inr (add_optional ((scenario_purpose INPUTS_ACHIVEMENT)\<lparr>task_has_ended := [(get_item_2, True)]\<rparr>)
            [(1, GetItemTask (ItemStack item1 1) 1), (2, GoToZoneTask zone_Z 1)], 3)"
  by (simp add: build_shape_tasks scenario_purpose_fields shape_task_def
      add_reward_shaping_subtasks_def get_item_2_def scenario_inputs add_subtasks_fold
      del: One_nat_def)

text \<open>
  C2. In the scenario, REQUIRED shaping of the task of getting item 2 synthesizes the three
  subtasks get item 0, get item 1 and go to zone Z; \<open>build\<close> appends them to the Purpose
  and leaves each in no terminal group.
\<close>

theorem required_shaping_scenario:
  "(\<exists>subtasks. required_subtasks (g, GetItemTask (ItemStack item2 1) goal_reward) scenario_env r fresh =
        Inr (subtasks, fresh + 3) \<and>
      set (map snd subtasks) =
        {GetItemTask (ItemStack item0 1) r, GetItemTask (ItemStack item1 1) r, GoToZoneTask zone_Z r} \<and>
      length subtasks = 3) \<and>
   (\<exists>p' subtasks. build scenario_env (scenario_purpose REQUIRED_ACHIVEMENTS) 1 = Inr (p', 4) \<and>
      tasks p' = get_item_2 # subtasks \<and>
      set (map snd subtasks) =
        {GetItemTask (ItemStack item0 1) 1, GetItemTask (ItemStack item1 1) 1, GoToZoneTask zone_Z 1} \<and>
      length subtasks = 3 \<and>
      terminal_groups p' = [(''default'', [get_item_2])] \<and>
      optional_tasks p' = subtasks)"
proof (intro conjI exI)
  show "required_subtasks (g, GetItemTask (ItemStack item2 1) goal_reward) scenario_env r fresh =
     Inr ([(fresh, GetItemTask (ItemStack item1 1) r), (Suc fresh, GetItemTask (ItemStack item0 1) r),
           (Suc (Suc fresh), GoToZoneTask zone_Z r)], fresh + 3)"
    by (rule scenario_required)
  show "build scenario_env (scenario_purpose REQUIRED_ACHIVEMENTS) 1 =
     Inr (add_optional (scenario_purpose REQUIRED_ACHIVEMENTS)
            [(1, GetItemTask (ItemStack item1 1) 1), (2, GetItemTask (ItemStack item0 1) 1),
             (3, GoToZoneTask zone_Z 1)], 4)"
    by (rule scenario_build_required)
  show "tasks (add_optional (scenario_purpose REQUIRED_ACHIVEMENTS)
            [(1, GetItemTask (ItemStack item1 1) 1), (2, GetItemTask (ItemStack item0 1) 1),
             (3, GoToZoneTask zone_Z 1)]) =
        get_item_2 # [(1, GetItemTask (ItemStack item1 1) 1), (2, GetItemTask (ItemStack item0 1) 1),
             (3, GoToZoneTask zone_Z 1)]"
    by (simp add: fold_add_optional_fields scenario_purpose_fields)
  show "optional_tasks (add_optional (scenario_purpose REQUIRED_ACHIVEMENTS)
            [(1, GetItemTask (ItemStack item1 1) 1), (2, GetItemTask (ItemStack item0 1) 1),
             (3, GoToZoneTask zone_Z 1)]) =
        [(1, GetItemTask (ItemStack item1 1) 1), (2, GetItemTask (ItemStack item0 1) 1),
             (3, GoToZoneTask zone_Z 1)]"
    by (simp add: fold_add_optional_fields scenario_purpose_fields optional_tasks_def get_item_2_def)
qed (auto simp: fold_add_optional_fields scenario_purpose_fields)

text \<open>
  C3 (amended). INPUTS shaping of a supported task synthesizes exactly one subtask per
  element of the remove sets (items and zone items) and zones preconditions of the
  transformations that produce the goal without consuming it and, for a \<open>PlaceItemTask\<close>
  with candidate zones, of the transformations that go to a candidate zone, plus one
  \<open>GoToZoneTask\<close> per candidate zone. In the scenario the subtasks of getting item 2 are
  get item 1 and go to zone Z.
\<close>

theorem inputs_shaping_one_hop:
  "(snd task \<noteq> OtherTask \<longrightarrow>
      (\<exists>kinds. inputs_subtasks task env r fresh = Inr (enumerate fresh kinds, fresh + length kinds) \<and>
         distinct kinds \<and>
         set kinds =
           inputs_of {t \<in> set (transformations env). relevant_transformation (snd task) t} r \<union>
           (\<lambda>z. GoToZoneTask z r) ` set (candidate_zones (snd task)))) \<and>
   (\<exists>subtasks. inputs_subtasks (g, GetItemTask (ItemStack item2 1) goal_reward) scenario_env r fresh =
        Inr (subtasks, fresh + 2) \<and>
      set (map snd subtasks) = {GetItemTask (ItemStack item1 1) r, GoToZoneTask zone_Z r} \<and>
      length subtasks = 2)"
proof (intro conjI impI)
  assume "snd task \<noteq> OtherTask"
  then show "\<exists>kinds. inputs_subtasks task env r fresh = Inr (enumerate fresh kinds, fresh + length kinds) \<and>
         distinct kinds \<and>
         set kinds =
           inputs_of {t \<in> set (transformations env). relevant_transformation (snd task) t} r \<union>
           (\<lambda>z. GoToZoneTask z r) ` set (candidate_zones (snd task))"
    by (rule inputs_subtasks_kinds)
next
  show "\<exists>subtasks. inputs_subtasks (g, GetItemTask (ItemStack item2 1) goal_reward) scenario_env r fresh =
        Inr (subtasks, fresh + 2) \<and>
      set (map snd subtasks) = {GetItemTask (ItemStack item1 1) r, GoToZoneTask zone_Z r} \<and>
      length subtasks = 2"
    unfolding scenario_inputs by simp
qed

text \<open>
  C3 as stated fails: no transformation of the scenario produces item 2 in a zone, yet
  INPUTS shaping of placing item 2 in zone Z synthesizes the subtask of going to zone Z.
\<close>

theorem inputs_shaping_place_item_counterexample:
  "inputs_subtasks (0, PlaceItemTask (ItemStack item2 1) (Some [zone_Z]) (10::int)) scenario_env 1 1 =
     Inr ([(1, GoToZoneTask zone_Z 1)], 2) \<and>
   inputs_of {t \<in> set (transformations scenario_env).
                produces_goal (PlaceItemTask (ItemStack item2 1) (Some [zone_Z]) (10::int)) t} (1::int) = {}"
  by (auto simp: inputs_subtasks_def scenario_defs gives_def goes_to_def add_transformation_inputs_def
      build_reward_shaping_subtasks_def List.union_def List.insert_def inputs_of_def produces_goal_def)

lemma add_optional_twice: "add_optional (add_optional p xs) ys = add_optional p (xs @ ys)"
  by (simp add: add_optional_simps)

lemma scenario_build_inputs_again:
  "build scenario_env
     (add_optional (scenario_purpose INPUTS_ACHIVEMENT)
        [(1, GetItemTask (ItemStack item1 1) 1), (2, GoToZoneTask zone_Z 1)]) 3 =
   Inr (add_optional (scenario_purpose INPUTS_ACHIVEMENT)
          [(1, GetItemTask (ItemStack item1 1) 1), (2, GoToZoneTask zone_Z 1),
           (3, GetItemTask (ItemStack item1 1) 1), (4, GoToZoneTask zone_Z 1)], 5)"
  by (simp add: build_shape_tasks fold_add_optional_fields fold_add_optional_shaping
      scenario_purpose_fields shape_task_def
      add_reward_shaping_subtasks_def get_item_2_def scenario_inputs add_subtasks_fold
      add_optional_twice del: One_nat_def)

text \<open>
  C7 as stated fails: in the scenario, with INPUTS shaping, the first \<open>build\<close> leaves three
  tasks and the second one five.
\<close>

theorem build_not_idempotent_counterexample:
  "\<exists>p1 p2. build scenario_env (scenario_purpose INPUTS_ACHIVEMENT) 1 = Inr (p1, 3) \<and>
      build scenario_env p1 3 = Inr (p2, 5) \<and>
      length (tasks p1) = 3 \<and> length (tasks p2) = 5 \<and> tasks p2 \<noteq> tasks p1"
proof (intro exI conjI)
  show "build scenario_env (scenario_purpose INPUTS_ACHIVEMENT) 1 =
      Inr (add_optional (scenario_purpose INPUTS_ACHIVEMENT)
            [(1, GetItemTask (ItemStack item1 1) 1), (2, GoToZoneTask zone_Z 1)], 3)"
    by (rule scenario_build_inputs)
  show "build scenario_env
     (add_optional (scenario_purpose INPUTS_ACHIVEMENT)
        [(1, GetItemTask (ItemStack item1 1) 1), (2, GoToZoneTask zone_Z 1)]) 3 =
   Inr (add_optional (scenario_purpose INPUTS_ACHIVEMENT)
          [(1, GetItemTask (ItemStack item1 1) 1), (2, GoToZoneTask zone_Z 1),
           (3, GetItemTask (ItemStack item1 1) 1), (4, GoToZoneTask zone_Z 1)], 5)"
    by (rule scenario_build_inputs_again)
qed (simp_all add: fold_add_optional_fields scenario_purpose_fields)

subsection \<open>The theorems with hypotheses, at concrete inputs\<close>

theorem build_subtasks_are_optional_witness:
  "wf_Purpose (scenario_purpose INPUTS_ACHIVEMENT) \<and> ids_below 1 (scenario_purpose INPUTS_ACHIVEMENT) \<and>
   build scenario_env (scenario_purpose INPUTS_ACHIVEMENT) 1 = Inr (add_optional (scenario_purpose INPUTS_ACHIVEMENT) [(1, GetItemTask (ItemStack item1 1) 1), (2, GoToZoneTask zone_Z 1)], 3) \<and>
   (\<exists>kinds. all_subtask_kinds scenario_env (scenario_purpose INPUTS_ACHIVEMENT) (tasks (scenario_purpose INPUTS_ACHIVEMENT)) = Inr kinds \<and>
      tasks (add_optional (scenario_purpose INPUTS_ACHIVEMENT) [(1, GetItemTask (ItemStack item1 1) 1), (2, GoToZoneTask zone_Z 1)]) = tasks (scenario_purpose INPUTS_ACHIVEMENT) @ enumerate 1 kinds \<and>
      terminal_groups (add_optional (scenario_purpose INPUTS_ACHIVEMENT) [(1, GetItemTask (ItemStack item1 1) 1), (2, GoToZoneTask zone_Z 1)]) = terminal_groups (scenario_purpose INPUTS_ACHIVEMENT) \<and>
      (\<forall>s \<in> set (enumerate 1 kinds).
         map_of (reward_shaping (add_optional (scenario_purpose INPUTS_ACHIVEMENT) [(1, GetItemTask (ItemStack item1 1) 1), (2, GoToZoneTask zone_Z 1)])) s = Some NONE \<and>
         \<not> in_terminal_group (add_optional (scenario_purpose INPUTS_ACHIVEMENT) [(1, GetItemTask (ItemStack item1 1) 1), (2, GoToZoneTask zone_Z 1)]) s))"
proof -
  have wf: "wf_Purpose (scenario_purpose INPUTS_ACHIVEMENT)"
    by (simp add: scenario_purpose_def wf_add_task_with wf_empty_Purpose)
  have below: "ids_below 1 (scenario_purpose INPUTS_ACHIVEMENT)"
    by (simp add: ids_below_def scenario_purpose_fields get_item_2_def)
  note b = scenario_build_inputs
  from build_subtasks_are_optional [OF wf below b] wf below b show ?thesis by blast
qed

theorem build_twice_witness:
  "ids_below 1 (scenario_purpose INPUTS_ACHIVEMENT) \<and>
   build scenario_env (scenario_purpose INPUTS_ACHIVEMENT) 1 = Inr (add_optional (scenario_purpose INPUTS_ACHIVEMENT) [(1, GetItemTask (ItemStack item1 1) 1), (2, GoToZoneTask zone_Z 1)], 3) \<and>
   (\<exists>kinds p2. all_subtask_kinds scenario_env (scenario_purpose INPUTS_ACHIVEMENT) (tasks (scenario_purpose INPUTS_ACHIVEMENT)) = Inr kinds \<and>
      tasks (add_optional (scenario_purpose INPUTS_ACHIVEMENT) [(1, GetItemTask (ItemStack item1 1) 1), (2, GoToZoneTask zone_Z 1)]) = tasks (scenario_purpose INPUTS_ACHIVEMENT) @ enumerate 1 kinds \<and>
      build scenario_env (add_optional (scenario_purpose INPUTS_ACHIVEMENT) [(1, GetItemTask (ItemStack item1 1) 1), (2, GoToZoneTask zone_Z 1)]) 3 = Inr (p2, 3 + length kinds) \<and>
      tasks p2 = tasks (add_optional (scenario_purpose INPUTS_ACHIVEMENT) [(1, GetItemTask (ItemStack item1 1) 1), (2, GoToZoneTask zone_Z 1)]) @ enumerate 3 kinds \<and>
      terminal_groups p2 = terminal_groups (add_optional (scenario_purpose INPUTS_ACHIVEMENT) [(1, GetItemTask (ItemStack item1 1) 1), (2, GoToZoneTask zone_Z 1)]) \<and>
      (\<forall>t \<in> set (tasks (add_optional (scenario_purpose INPUTS_ACHIVEMENT) [(1, GetItemTask (ItemStack item1 1) 1), (2, GoToZoneTask zone_Z 1)])).
         map_of (reward_shaping p2) t = map_of (reward_shaping (add_optional (scenario_purpose INPUTS_ACHIVEMENT) [(1, GetItemTask (ItemStack item1 1) 1), (2, GoToZoneTask zone_Z 1)])) t) \<and>
      (p2 = add_optional (scenario_purpose INPUTS_ACHIVEMENT) [(1, GetItemTask (ItemStack item1 1) 1), (2, GoToZoneTask zone_Z 1)] \<longleftrightarrow> kinds = []))"
proof -
  have below: "ids_below 1 (scenario_purpose INPUTS_ACHIVEMENT)"
    by (simp add: ids_below_def scenario_purpose_fields get_item_2_def)
  note b = scenario_build_inputs
  from build_twice [OF below b] below b show ?thesis by blast
qed

theorem unsupported_task_raises_witness:
  "(0, OtherTask) \<in> set (tasks (add_task_with (empty_Purpose 0 (ShapingMember NONE) 1) (0, OtherTask) REQUIRED_ACHIVEMENTS (GroupsStr ''default'') :: (int Task, int) Purpose)) \<and>
   snd (0::nat, OtherTask :: int TaskKind) = OtherTask \<and>
   map_of (reward_shaping (add_task_with (empty_Purpose 0 (ShapingMember NONE) 1) (0, OtherTask) REQUIRED_ACHIVEMENTS (GroupsStr ''default'') :: (int Task, int) Purpose)) (0, OtherTask) = Some REQUIRED_ACHIVEMENTS \<and>
   (\<exists>e. build scenario_env (add_task_with (empty_Purpose 0 (ShapingMember NONE) 1) (0, OtherTask) REQUIRED_ACHIVEMENTS (GroupsStr ''default'') :: (int Task, int) Purpose) 1 = Inl e) \<and>
   required_subtasks (0, OtherTask) scenario_env (1::int) 1 = Inl NotImplementedError \<and>
   inputs_subtasks (0, OtherTask) scenario_env (1::int) 1 = Inl NotImplementedError"
proof -
  have a: "(0, OtherTask) \<in> set (tasks (add_task_with (empty_Purpose 0 (ShapingMember NONE) 1) (0, OtherTask) REQUIRED_ACHIVEMENTS (GroupsStr ''default'') :: (int Task, int) Purpose))"
    by (simp add: add_task_with_def empty_Purpose_def)
  have b: "snd (0::nat, OtherTask :: int TaskKind) = OtherTask"
    by simp
  have c: "map_of (reward_shaping (add_task_with (empty_Purpose 0 (ShapingMember NONE) 1) (0, OtherTask) REQUIRED_ACHIVEMENTS (GroupsStr ''default'') :: (int Task, int) Purpose)) (0, OtherTask) = Some REQUIRED_ACHIVEMENTS"
    by (simp add: add_task_with_def empty_Purpose_def)
  from unsupported_task_raises [OF a b disjI1 [OF c], of scenario_env 1 1] a b c
  show ?thesis by blast
qed

theorem inputs_shaping_one_hop_witness:
  "snd (0::nat, PlaceItemTask (ItemStack item2 1) (Some [zone_Z]) (10::int)) \<noteq> OtherTask \<and>
   (\<exists>kinds. inputs_subtasks (0::nat, PlaceItemTask (ItemStack item2 1) (Some [zone_Z]) (10::int)) scenario_env (1::int) 1 =
        Inr (enumerate 1 kinds, 1 + length kinds) \<and>
      distinct kinds \<and>
      set kinds =
        inputs_of {t \<in> set (transformations scenario_env).
                     relevant_transformation (snd (0::nat, PlaceItemTask (ItemStack item2 1) (Some [zone_Z]) (10::int))) t} 1 \<union>
        (\<lambda>z. GoToZoneTask z 1) ` set (candidate_zones (snd (0::nat, PlaceItemTask (ItemStack item2 1) (Some [zone_Z]) (10::int)))))"
proof -
  have a: "snd (0::nat, PlaceItemTask (ItemStack item2 1) (Some [zone_Z]) (10::int)) \<noteq> OtherTask"
    by simp
  from a inputs_shaping_one_hop [THEN conjunct1, rule_format, OF a, of scenario_env 1 1]
  show ?thesis by (rule conjI)
qed

theorem ended_flag_reset_only_by_add_task_witness:
  "wf_Purpose example_purpose \<and>
   is_terminal position_task example_purpose () 0 () =
     Inr (False, example_purpose\<lparr>task_has_ended := [(0, True), (1, False), (2, False)]\<rparr>) \<and>
   has_ended (example_purpose\<lparr>task_has_ended := [(0, True), (1, False), (2, False)]\<rparr>) 0 \<and>
   (\<exists>rs. is_terminal_calls position_task
            (example_purpose\<lparr>task_has_ended := [(0, True), (1, False), (2, False)]\<rparr>)
            [((), 5, ()), ((), 1, ())] = Inr rs \<and>
      length rs = length [((), 5::nat, ()), ((), 1, ())] \<and>
      (\<forall>r \<in> set rs. has_ended (snd r) 0)) \<and>
   add_task (example_purpose\<lparr>task_has_ended := [(0, True), (1, False), (2, False)]\<rparr>) 3 None GroupsNone =
     Inr (add_task_with (example_purpose\<lparr>task_has_ended := [(0, True), (1, False), (2, False)]\<rparr>) 3 NONE GroupsNone) \<and>
   has_ended (add_task_with (example_purpose\<lparr>task_has_ended := [(0, True), (1, False), (2, False)]\<rparr>) 3 NONE GroupsNone) 0 \<and>
   ids_below 1 ((scenario_purpose INPUTS_ACHIVEMENT)\<lparr>task_has_ended := [(get_item_2, True)]\<rparr>) \<and>
   build scenario_env ((scenario_purpose INPUTS_ACHIVEMENT)\<lparr>task_has_ended := [(get_item_2, True)]\<rparr>) 1 =
     Inr (add_optional ((scenario_purpose INPUTS_ACHIVEMENT)\<lparr>task_has_ended := [(get_item_2, True)]\<rparr>)
            [(1, GetItemTask (ItemStack item1 1) 1), (2, GoToZoneTask zone_Z 1)], 3) \<and>
   get_item_2 \<in> set (tasks ((scenario_purpose INPUTS_ACHIVEMENT)\<lparr>task_has_ended := [(get_item_2, True)]\<rparr>)) \<and>
   has_ended ((scenario_purpose INPUTS_ACHIVEMENT)\<lparr>task_has_ended := [(get_item_2, True)]\<rparr>) get_item_2 \<and>
   has_ended (add_optional ((scenario_purpose INPUTS_ACHIVEMENT)\<lparr>task_has_ended := [(get_item_2, True)]\<rparr>)
                [(1, GetItemTask (ItemStack item1 1) 1), (2, GoToZoneTask zone_Z 1)]) get_item_2"
proof -
  let ?p1 = "example_purpose\<lparr>task_has_ended := [(0, True), (1, False), (2, False)]\<rparr>"
  let ?b = "(scenario_purpose INPUTS_ACHIVEMENT)\<lparr>task_has_ended := [(get_item_2, True)]\<rparr>"
  have wf: "wf_Purpose example_purpose"
    by (simp add: example_purpose_def three_tasks_purpose_def add_task_with_def empty_Purpose_def
        add_to_group_def wf_Purpose_def)
  have step: "is_terminal position_task example_purpose () 0 () = Inr (False, ?p1)"
    by (simp add: example_purpose_def position_task_def three_tasks_purpose_def add_task_with_def
        empty_Purpose_def add_to_group_def is_terminal_def)
  have ended: "has_ended ?p1 0"
    by (simp add: has_ended_def)
  have add: "add_task ?p1 3 None GroupsNone = Inr (add_task_with ?p1 3 NONE GroupsNone)"
    by (simp add: add_task_def example_purpose_def three_tasks_purpose_def add_task_with_def
        empty_Purpose_def)
  have below: "ids_below 1 ?b"
    by (simp add: ids_below_def scenario_purpose_fields get_item_2_def)
  have mem: "get_item_2 \<in> set (tasks ?b)"
    by (simp add: scenario_purpose_fields)
  have ended': "has_ended ?b get_item_2"
    by (simp add: has_ended_def)
  note bld = scenario_build_inputs_ended
  note sticky = ended_flag_reset_only_by_add_task [THEN conjunct1, rule_format,
      OF conjI [OF wf conjI [OF step ended]], of position_task "[((), 5, ()), ((), 1, ())]"]
  note other = ended_flag_reset_only_by_add_task [THEN conjunct2, THEN conjunct1, rule_format,
      OF add, of 0]
  note built = ended_flag_reset_only_by_add_task [THEN conjunct2, THEN conjunct2, rule_format,
      OF conjI [OF below conjI [OF bld mem]]]
  from other ended have 1: "has_ended (add_task_with ?p1 3 NONE GroupsNone) 0" by simp
  from built ended' have 2: "has_ended (add_optional ?b
      [(1, GetItemTask (ItemStack item1 1) 1), (2, GoToZoneTask zone_Z 1)]) get_item_2" by simp
  from wf step ended sticky add 1 below bld mem ended' 2 show ?thesis by blast
qed

end
